theory Spec2Isabelle
  imports Complex_Main "HOL-Library.Word"
begin

section \<open>JavaScript values used by the simulator\<close>

text \<open>
  A value of type \<open>string | null\<close> is a \<open>string option\<close>, an optional number field
  (\<open>varnishBump?: number\<close>) a \<open>real option\<close>. The numbers of the configuration are only
  selected and passed on by the material logic, so they are carried as reals; NaN is not
  part of the model. JavaScript truthiness is written out: \<open>null\<close>, \<open>undefined\<close>, the empty
  string and the number 0 are falsy.
\<close>

definition truthy_str :: "string option \<Rightarrow> bool" where
  "truthy_str u = (case u of None \<Rightarrow> False | Some s \<Rightarrow> s \<noteq> [])"

definition truthy_num :: "real option \<Rightarrow> bool" where
  "truthy_num x = (case x of None \<Rightarrow> False | Some v \<Rightarrow> v \<noteq> 0)"

text \<open>\<open>a || b\<close> on an optional string with a string fallback, and on an optional number
  with a number fallback.\<close>

definition or_str :: "string option \<Rightarrow> string \<Rightarrow> string" where
  "or_str u d = (case u of None \<Rightarrow> d | Some s \<Rightarrow> if s \<noteq> [] then s else d)"

definition or_num :: "real option \<Rightarrow> real \<Rightarrow> real" where
  "or_num x d = (case x of None \<Rightarrow> d | Some v \<Rightarrow> if v \<noteq> 0 then v else d)"

section \<open>Configuration (types.ts)\<close>

record PrintConfig =
  metalness :: real
  roughness :: real
  metalRoughness :: real
  paperRoughness :: real
  inkGlossiness :: real
  exposure :: real
  toneMappingExposure :: "real option"
  backgroundColor :: string
  varnishBump :: "real option"

section \<open>Material parameters: the props of the physical material\<close>

text \<open>
  A texture is identified by the URL its image was loaded from. The record holds the
  props that both consumers give to \<open>MeshPhysicalMaterial\<close>; a map prop that is \<open>null\<close>
  is \<open>None\<close>.
\<close>

datatype texture = Texture string

record material =
  mat_map :: texture
  mat_metalnessMap :: "texture option"
  mat_roughnessMap :: "texture option"
  mat_clearcoatMap :: "texture option"
  mat_bumpMap :: "texture option"
  mat_bumpScale :: real
  mat_metalness :: real
  mat_roughness :: real
  mat_clearcoat :: real
  mat_clearcoatRoughness :: real
  mat_reflectivity :: real
  mat_envMapIntensity :: real

subsection \<open>Interactive viewer: \<open>PrintMesh\<close> (components/PrintSimulator.tsx)\<close>

text \<open>
  \<open>useTexture (metalnessMapUrl || cmykUrl)\<close> always yields a texture: when a generated
  map is missing, the artwork texture stands in for it. \<open>envMapIntensity\<close> is the value
  the frame callback writes. The props \<open>aspectRatio\<close> and \<open>exposure\<close> do not reach the
  material and are left out.
\<close>

definition PrintMesh ::
  "string \<Rightarrow> string option \<Rightarrow> string option \<Rightarrow> string option \<Rightarrow> PrintConfig \<Rightarrow> bool \<Rightarrow> material"
where
  "PrintMesh cmykUrl metalnessMapUrl roughnessMapUrl clearcoatMapUrl config isPaperPreview =
    (let colorMap = Texture cmykUrl;
         metalMap = Texture (or_str metalnessMapUrl cmykUrl);
         roughMap = Texture (or_str roughnessMapUrl cmykUrl);
         coatMap = Texture (or_str clearcoatMapUrl cmykUrl);
         hasVarnish = truthy_str clearcoatMapUrl;
         useMaps = (\<not> isPaperPreview \<or> hasVarnish);
         clearcoatValue =
           (if hasVarnish then 1
            else if \<not> isPaperPreview then inkGlossiness config
            else 0)
     in \<lparr> mat_map = colorMap,
          mat_metalnessMap = (if useMaps then Some metalMap else None),
          mat_roughnessMap = (if useMaps then Some roughMap else None),
          mat_clearcoatMap = (if hasVarnish then Some coatMap else None),
          mat_bumpMap = (if hasVarnish then Some coatMap else None),
          mat_bumpScale = (if hasVarnish then or_num (varnishBump config) (2 / 100) else 0),
          mat_metalness = (if \<not> isPaperPreview \<and> useMaps then 1 else 0),
          mat_roughness = (if useMaps then 1 else paperRoughness config),
          mat_clearcoat = clearcoatValue,
          mat_clearcoatRoughness = 1 / 10,
          mat_reflectivity = 1 / 2,
          mat_envMapIntensity =
            (if isPaperPreview then exposure config * (2 / 10) else exposure config) \<rparr>)"

subsection \<open>Static export: \<open>generateStandaloneHtml\<close> (utils/exportUtils.ts)\<close>

text \<open>
  The export writes the material into a script of the generated page. The model gives
  the material that script constructs: \<open>metalBase64\<close>, \<open>roughBase64\<close> and \<open>coatBase64\<close>
  are the data URLs of the images behind the three map URLs (or \<open>null\<close>), the page loads
  a texture from each that is not \<open>null\<close>, and \<open>config\<close> is read back from its JSON text,
  where an undefined \<open>varnishBump\<close> stays undefined.
\<close>

definition generateStandaloneHtml ::
  "string \<Rightarrow> string option \<Rightarrow> string option \<Rightarrow> string option \<Rightarrow> PrintConfig \<Rightarrow> bool \<Rightarrow> material"
where
  "generateStandaloneHtml cmykUrl metalnessMapUrl roughnessMapUrl clearcoatMapUrl config isPaperPreview =
    (let hasVarnish = truthy_str clearcoatMapUrl;
         shouldLoadMaps = (\<not> isPaperPreview \<or> hasVarnish);
         metalBase64 = (if shouldLoadMaps \<and> truthy_str metalnessMapUrl then metalnessMapUrl else None);
         roughBase64 = (if shouldLoadMaps \<and> truthy_str roughnessMapUrl then roughnessMapUrl else None);
         coatBase64 = (if hasVarnish \<and> truthy_str clearcoatMapUrl then clearcoatMapUrl else None);
         clearcoatVal =
           (if hasVarnish then 1
            else if \<not> isPaperPreview then inkGlossiness config
            else 0);
         cmykTex = Texture cmykUrl;
         metalTex = (if truthy_str metalBase64 then map_option Texture metalBase64 else None);
         roughTex = (if truthy_str roughBase64 then map_option Texture roughBase64 else None);
         coatTex = (if truthy_str coatBase64 then map_option Texture coatBase64 else None)
     in \<lparr> mat_map = cmykTex,
          mat_metalnessMap = metalTex,
          mat_roughnessMap = roughTex,
          mat_clearcoatMap = coatTex,
          mat_bumpMap = coatTex,
          mat_bumpScale =
            (if coatTex \<noteq> None \<and> truthy_num (varnishBump config)
             then (case varnishBump config of Some v \<Rightarrow> v | None \<Rightarrow> 0) else 0),
          mat_metalness = (if \<not> isPaperPreview \<and> truthy_str metalnessMapUrl then 1 else 0),
          mat_roughness =
            (if shouldLoadMaps \<and> truthy_str roughnessMapUrl then 1 else paperRoughness config),
          mat_clearcoat = clearcoatVal,
          mat_clearcoatRoughness = 1 / 10,
          mat_reflectivity = 1 / 2,
          mat_envMapIntensity =
            (if isPaperPreview then exposure config * (2 / 10) else exposure config) \<rparr>)"

subsection \<open>The three ways clearcoat can be driven\<close>

text \<open>
  The three states of the clearcoat invariant, read so that they exclude each other:
  driven by the map (map bound, scalar 1), driven by the scalar alone (no map, a scalar
  that is not zero), and zero.
\<close>

definition coat_by_map :: "material \<Rightarrow> bool" where
  "coat_by_map p = (mat_clearcoatMap p \<noteq> None \<and> mat_clearcoat p = 1)"

definition coat_by_scalar :: "material \<Rightarrow> bool" where
  "coat_by_scalar p = (mat_clearcoatMap p = None \<and> mat_clearcoat p \<noteq> 0)"

definition coat_zero :: "material \<Rightarrow> bool" where
  "coat_zero p = (mat_clearcoat p = 0)"

definition exactly_one :: "bool \<Rightarrow> bool \<Rightarrow> bool \<Rightarrow> bool" where
  "exactly_one a b c = ((a \<and> \<not> b \<and> \<not> c) \<or> (\<not> a \<and> b \<and> \<not> c) \<or> (\<not> a \<and> \<not> b \<and> c))"

text \<open>The defaults of App.tsx.\<close>

definition DEFAULT_CONFIG :: PrintConfig where
  "DEFAULT_CONFIG =
    \<lparr> metalness = 1, roughness = 2 / 10, metalRoughness = 2 / 10, paperRoughness = 1,
      inkGlossiness = 0, exposure = 1, toneMappingExposure = Some (9 / 10),
      backgroundColor = ''#0d1117'', varnishBump = Some (2 / 100) \<rparr>"

section \<open>Map synthesis: \<open>processTextureMaps\<close> (utils/textureUtils.ts)\<close>

subsection \<open>Pixel buffers\<close>

text \<open>
  An element of a \<open>Uint8ClampedArray\<close> is a byte. A read outside the array yields
  \<open>undefined\<close> (\<open>None\<close>), a write outside the array is ignored, which is what
  \<open>xs[i := v]\<close> does. Storing a number converts it with the \<open>ToUint8Clamp\<close> of the
  language standard: clamp to \<open>[0, 255]\<close>, round to the nearest integer, a tie to the
  even one. The roughness scalars are modelled as reals, with exact arithmetic in
  place of the double-precision operations of the source.
\<close>

type_synonym byte = "8 word"

definition ld :: "byte list \<Rightarrow> nat \<Rightarrow> byte option" where
  "ld d i = (if i < length d then Some (d ! i) else None)"

definition roundTiesEven :: "real \<Rightarrow> int" where
  "roundTiesEven x =
    (let f = \<lfloor>x\<rfloor>
     in if x < real_of_int f + 1 / 2 then f
        else if x > real_of_int f + 1 / 2 then f + 1
        else if even f then f
        else f + 1)"

definition ToUint8Clamp :: "real \<Rightarrow> byte" where
  "ToUint8Clamp number = word_of_int (roundTiesEven (min (max number 0) 255))"

text \<open>
  Every element access of the synthesis is recorded: which array, which offset, and the
  length of the array at that moment. The record is not a variable of the source; it is
  kept so that a property of the accesses is a property of what the loops do. A read
  goes through \<open>rd\<close> and a write through \<open>wr\<close>, which hand back the access they make
  together with their result.
\<close>

datatype buf = WhiteInk | Varnish | Metalness | Roughness | Clearcoat

type_synonym access = "buf \<times> nat \<times> nat"

definition rd :: "buf \<Rightarrow> byte list \<Rightarrow> nat \<Rightarrow> byte option \<times> access list" where
  "rd name d i = (ld d i, [(name, i, length d)])"

definition wr :: "buf \<Rightarrow> byte list \<Rightarrow> nat \<Rightarrow> byte \<Rightarrow> byte list \<times> access list" where
  "wr name d i v = (d[i := v], [(name, i, length d)])"

text \<open>\<open>255 - d[i]\<close> as it is stored back: \<open>255 - undefined\<close> is NaN, stored as 0.\<close>

definition inv255 :: "byte option \<Rightarrow> byte" where
  "inv255 v = (case v of None \<Rightarrow> 0 | Some b \<Rightarrow> 255 - b)"

text \<open>\<open>for (let i = i0; i < n; i += 4) body\<close>, the shape of all three loops.\<close>

function for4 :: "nat \<Rightarrow> nat \<Rightarrow> (nat \<Rightarrow> 's \<Rightarrow> 's) \<Rightarrow> 's \<Rightarrow> 's" where
  "for4 i n body s = (if i < n then for4 (i + 4) n body (body i s) else s)"
  by pat_completeness auto
termination
  by (relation "measure (\<lambda>(i, n, body, s). n - i)") auto

declare for4.simps [simp del]

text \<open>The offsets such a loop visits, in order.\<close>

definition visited :: "nat \<Rightarrow> nat list" where
  "visited n = for4 0 n (\<lambda>i acc. acc @ [i]) []"

text \<open>The sample of a pixel is its red channel: the bytes at the offsets 0, 4, 8, ...\<close>

definition samples :: "byte list \<Rightarrow> byte list" where
  "samples d = map (\<lambda>i. d ! i) (visited (length d))"

subsection \<open>Decoded images and the canvas\<close>

text \<open>
  A decoded image (\<open>HTMLImageElement\<close> after \<open>onload\<close>) has its own width and height.
  \<open>drawn img w h i\<close> is byte \<open>i\<close> of what the 2D context holds after the image has
  been drawn, scaled to \<open>w\<close> by \<open>h\<close>, on a cleared canvas of that size. Scaling is the
  browser's, so it is a field of the image rather than a definition.

  Modelled from the platform, which is not part of the repository:
  \<open>getImageData(0, 0, w, h).data\<close> is an array of exactly \<open>4 * w * h\<close> bytes, RGBA per
  pixel in row-major order. Exceptions raised by the canvas itself (an area of zero
  pixels, a tainted canvas) are not modelled.
\<close>

record image =
  width :: nat
  height :: nat
  drawn :: "nat \<Rightarrow> nat \<Rightarrow> nat \<Rightarrow> byte"

definition getImageData :: "image \<Rightarrow> nat \<Rightarrow> nat \<Rightarrow> byte list" where
  "getImageData img w h = map (drawn img w h) [0..<w * h * 4]"

subsection \<open>\<open>runProcessing\<close>\<close>

definition workWidth :: "image option \<Rightarrow> image option \<Rightarrow> nat \<Rightarrow> nat" where
  "workWidth whiteImg varnishImg targetWidth =
    (case whiteImg of Some w \<Rightarrow> width w
     | None \<Rightarrow> (case varnishImg of Some v \<Rightarrow> width v | None \<Rightarrow> targetWidth))"

definition workHeight :: "image option \<Rightarrow> image option \<Rightarrow> nat \<Rightarrow> nat" where
  "workHeight whiteImg varnishImg targetHeight =
    (case whiteImg of Some w \<Rightarrow> height w
     | None \<Rightarrow> (case varnishImg of Some v \<Rightarrow> height v | None \<Rightarrow> targetHeight))"

text \<open>The body of both inversion loops: three channels in place, alpha untouched.\<close>

definition invertStep :: "buf \<Rightarrow> nat \<Rightarrow> byte list \<times> access list \<Rightarrow> byte list \<times> access list" where
  "invertStep name i s =
    (let (d, acc) = s;
         (r, a1) = rd name d i;
         (d1, a2) = wr name d i (inv255 r);
         (g, a3) = rd name d1 (i + 1);
         (d2, a4) = wr name d1 (i + 1) (inv255 g);
         (b, a5) = rd name d2 (i + 2);
         (d3, a6) = wr name d2 (i + 2) (inv255 b)
     in (d3, acc @ a1 @ a2 @ a3 @ a4 @ a5 @ a6))"

text \<open>The inversion loop over an array: the inverted array and the accesses made.\<close>

definition invert :: "buf \<Rightarrow> byte list \<Rightarrow> byte list \<times> access list" where
  "invert name d = for4 0 (length d) (invertStep name) (d, [])"

text \<open>Step 1: the white-ink buffer, inverted, or all 255 when there is no white mask,
  with the accesses of the inversion.\<close>

definition whiteInkStep :: "image option \<Rightarrow> nat \<Rightarrow> nat \<Rightarrow> byte list \<times> access list" where
  "whiteInkStep whiteImg w h =
    (case whiteImg of
       Some img \<Rightarrow> invert WhiteInk (getImageData img w h)
     | None \<Rightarrow> (replicate (w * h * 4) 255, []))"

definition whiteInkData :: "image option \<Rightarrow> nat \<Rightarrow> nat \<Rightarrow> byte list" where
  "whiteInkData whiteImg w h = fst (whiteInkStep whiteImg w h)"

text \<open>Step 2: the varnish buffer, inverted, or \<open>null\<close>, with the accesses of the
  inversion.\<close>

definition varnishStep :: "image option \<Rightarrow> nat \<Rightarrow> nat \<Rightarrow> byte list option \<times> access list" where
  "varnishStep varnishImg w h =
    (case varnishImg of
       Some img \<Rightarrow> (let (d, acc) = invert Varnish (getImageData img w h) in (Some d, acc))
     | None \<Rightarrow> (None, []))"

definition varnishData :: "image option \<Rightarrow> nat \<Rightarrow> nat \<Rightarrow> byte list option" where
  "varnishData varnishImg w h = fst (varnishStep varnishImg w h)"

text \<open>The scale factors on the 0-255 scale.\<close>

definition metalRoughVal :: "real \<Rightarrow> int" where
  "metalRoughVal mr = \<lfloor>min 1 (max 0 mr) * 255\<rfloor>"

definition paperRoughVal :: "real \<Rightarrow> int" where
  "paperRoughVal pr = \<lfloor>min 255 (pr * 255)\<rfloor>"

definition varnishRoughVal :: byte where
  "varnishRoughVal = 5"

text \<open>The interpolated roughness of a pixel without varnish, as stored.\<close>

definition roughVal :: "int \<Rightarrow> int \<Rightarrow> byte \<Rightarrow> real" where
  "roughVal mv pv r =
    (let normalizedMask = real (unat r) / 255
     in real_of_int mv + normalizedMask * real_of_int (pv - mv))"

text \<open>The three output arrays, and the accesses made so far.\<close>

record buffers =
  metalnessData :: "byte list"
  roughnessData :: "byte list"
  clearcoatData :: "byte list option"
  accessed :: "access list"

text \<open>\<open>varnishData[i] > 100\<close>; \<open>undefined > 100\<close> is false.\<close>

definition gt100 :: "byte option \<Rightarrow> bool" where
  "gt100 v = (case v of None \<Rightarrow> False | Some b \<Rightarrow> 100 < b)"

text \<open>The varnish test of the pixel at offset \<open>i\<close>: a varnish buffer exists and its
  sample there exceeds 100.\<close>

definition varnished :: "byte list option \<Rightarrow> nat \<Rightarrow> bool" where
  "varnished vd i = (case vd of None \<Rightarrow> False | Some v \<Rightarrow> gt100 (ld v i))"

text \<open>The four stores of one pixel into an output array: the value in the three colour
  channels, 255 in alpha.\<close>

definition fill4 :: "buf \<Rightarrow> byte list \<Rightarrow> nat \<Rightarrow> byte \<Rightarrow> byte list \<times> access list" where
  "fill4 name d i v =
    (let (d1, a1) = wr name d i v;
         (d2, a2) = wr name d1 (i + 1) v;
         (d3, a3) = wr name d2 (i + 2) v;
         (d4, a4) = wr name d3 (i + 3) 255
     in (d4, a1 @ a2 @ a3 @ a4))"

text \<open>The roughness value of a pixel without varnish as it is stored; with an
  undefined sample the interpolation is NaN, stored as 0.\<close>

definition roughByte :: "int \<Rightarrow> int \<Rightarrow> byte option \<Rightarrow> byte" where
  "roughByte mv pv r = (case r of None \<Rightarrow> 0 | Some x \<Rightarrow> ToUint8Clamp (roughVal mv pv x))"

text \<open>The body of the per-pixel loop; \<open>wd\<close> and \<open>vd\<close> are the two input buffers.
  Every element it reads or writes goes through \<open>rd\<close> or \<open>fill4\<close>, in the order of the
  source, and the accesses are appended to the record.\<close>

definition pixelStep ::
  "byte list \<Rightarrow> byte list option \<Rightarrow> int \<Rightarrow> int \<Rightarrow> nat \<Rightarrow> buffers \<Rightarrow> buffers"
where
  "pixelStep wd vd mv pv i b =
    (let (r, a0) = rd WhiteInk wd i;
         metalVal = inv255 r;
         (m, a1) = fill4 Metalness (metalnessData b) i metalVal;
         (isVarnished, c, a2) =
           (case (vd, clearcoatData b) of
              (Some v, Some c0) \<Rightarrow>
                (let (s, a) = rd Varnish v i
                 in if gt100 s
                    then (let (c1, a') = fill4 Clearcoat c0 i 255 in (True, Some c1, a @ a'))
                    else (let (c1, a') = fill4 Clearcoat c0 i 0 in (False, Some c1, a @ a')))
            | _ \<Rightarrow> (False, clearcoatData b, []));
         (ro, a3) =
           (if isVarnished then fill4 Roughness (roughnessData b) i varnishRoughVal
            else fill4 Roughness (roughnessData b) i (roughByte mv pv r))
     in \<lparr> metalnessData = m, roughnessData = ro, clearcoatData = c,
          accessed = accessed b @ a0 @ a1 @ a2 @ a3 \<rparr>)"

text \<open>
  A generated map: \<open>createMapUrl\<close> puts the pixel data on a canvas of the working size
  and encodes it as a data URL. The encoding is lossless PNG, so the URL is modelled by
  what it encodes.
\<close>

record map_url =
  url_width :: nat
  url_height :: nat
  url_data :: "byte list"

definition createMapUrl :: "nat \<Rightarrow> nat \<Rightarrow> byte list \<Rightarrow> map_url" where
  "createMapUrl w h pixelData = \<lparr> url_width = w, url_height = h, url_data = pixelData \<rparr>"

record texture_maps =
  metalnessMap :: map_url
  roughnessMap :: map_url
  clearcoatMap :: "map_url option"

datatype error =
    NoCanvasContext
  | ImageLoadError string
  | VarnishLoadFailed
  | NoTextures

text \<open>The three output buffers after the per-pixel loop, with the accesses of the two
  inversion loops and of the per-pixel loop, in order.\<close>

definition outputBuffers ::
  "real \<Rightarrow> real \<Rightarrow> nat \<Rightarrow> nat \<Rightarrow> image option \<Rightarrow> image option \<Rightarrow> buffers"
where
  "outputBuffers mr pr targetWidth targetHeight whiteImg varnishImg =
    (let w = workWidth whiteImg varnishImg targetWidth;
         h = workHeight whiteImg varnishImg targetHeight;
         wd = whiteInkData whiteImg w h;
         vd = varnishData varnishImg w h;
         init = \<lparr> metalnessData = replicate (length wd) 0,
                  roughnessData = replicate (length wd) 0,
                  clearcoatData =
                    (case varnishImg of Some v \<Rightarrow> Some (replicate (length wd) 0) | None \<Rightarrow> None),
                  accessed = snd (whiteInkStep whiteImg w h) @ snd (varnishStep varnishImg w h) \<rparr>
     in for4 0 (length wd) (pixelStep wd vd (metalRoughVal mr) (paperRoughVal pr)) init)"

text \<open>
  \<open>runProcessing\<close> settles the promise: \<open>Inl\<close> is \<open>reject\<close>, \<open>Inr\<close> is \<open>resolve\<close>.
  \<open>ctx\<close> says whether \<open>getContext('2d')\<close> returned a context.
\<close>

definition runProcessing ::
  "bool \<Rightarrow> real \<Rightarrow> real \<Rightarrow> nat \<Rightarrow> nat \<Rightarrow> image option \<Rightarrow> image option \<Rightarrow> error + texture_maps"
where
  "runProcessing ctx mr pr targetWidth targetHeight whiteImg varnishImg =
    (let w = workWidth whiteImg varnishImg targetWidth;
         h = workHeight whiteImg varnishImg targetHeight
     in if \<not> ctx then Inl NoCanvasContext
        else
          (let b = outputBuffers mr pr targetWidth targetHeight whiteImg varnishImg
           in Inr \<lparr> metalnessMap = createMapUrl w h (metalnessData b),
                    roughnessMap = createMapUrl w h (roughnessData b),
                    clearcoatMap = map_option (createMapUrl w h) (clearcoatData b) \<rparr>))"

subsection \<open>Loading and \<open>processTextureMaps\<close>\<close>

text \<open>
  The browser is a record: \<open>load\<close> decodes the image behind a URL (\<open>onload\<close>) or fails
  (\<open>onerror\<close>, \<open>None\<close>), \<open>context2d\<close> says whether a canvas gives a 2D context.
\<close>

record browser =
  load :: "string \<Rightarrow> image option"
  context2d :: bool

text \<open>A source that is \<open>null\<close> or the empty string counts as not supplied.\<close>

definition supplied :: "string option \<Rightarrow> string option" where
  "supplied u = (case u of None \<Rightarrow> None | Some s \<Rightarrow> if s \<noteq> [] then Some s else None)"

definition processTextureMaps ::
  "browser \<Rightarrow> string option \<Rightarrow> string option \<Rightarrow> real \<Rightarrow> real \<Rightarrow> nat \<Rightarrow> nat \<Rightarrow> error + texture_maps"
where
  "processTextureMaps env imgSrc varnishSrc mr pr targetWidth targetHeight =
    (let run = runProcessing (context2d env) mr pr targetWidth targetHeight
     in case supplied imgSrc of
          Some src \<Rightarrow>
            (case load env src of
               None \<Rightarrow> Inl (ImageLoadError src)
             | Some img \<Rightarrow>
                 (case supplied varnishSrc of
                    Some vsrc \<Rightarrow>
                      (case load env vsrc of
                         Some vImg \<Rightarrow> run (Some img) (Some vImg)
                       | None \<Rightarrow> run (Some img) None)
                  | None \<Rightarrow> run (Some img) None))
        | None \<Rightarrow>
            (case supplied varnishSrc of
               Some vsrc \<Rightarrow>
                 (case load env vsrc of
                    Some vImg \<Rightarrow> run None (Some vImg)
                  | None \<Rightarrow> Inl VarnishLoadFailed)
             | None \<Rightarrow> Inl NoTextures))"

subsection \<open>Example inputs\<close>

text \<open>
  A 2 by 2 grayscale mask, opaque, with the raw red samples 0, 0, 255, 255 in row-major
  order, and a browser that can decode it from one URL and nothing else.
\<close>

definition maskBytes :: "byte list" where
  "maskBytes = [0, 0, 0, 255,  0, 0, 0, 255,  255, 255, 255, 255,  255, 255, 255, 255]"

definition exampleMask :: image where
  "exampleMask =
    \<lparr> width = 2, height = 2,
      drawn = (\<lambda>w h i. if w = 2 \<and> h = 2 \<and> i < 16 then maskBytes ! i else 0) \<rparr>"

definition exampleBrowser :: browser where
  "exampleBrowser =
    \<lparr> load = (\<lambda>url. if url = ''white.png'' then Some exampleMask else None),
      context2d = True \<rparr>"

text \<open>The maps expected from that mask alone with \<open>metalRoughness = 0.2\<close> and
  \<open>paperRoughness = 1.0\<close>.\<close>

definition exampleMaps :: texture_maps where
  "exampleMaps =
    \<lparr> metalnessMap = \<lparr> url_width = 2, url_height = 2, url_data =
        [0, 0, 0, 255,  0, 0, 0, 255,  255, 255, 255, 255,  255, 255, 255, 255] \<rparr>,
      roughnessMap = \<lparr> url_width = 2, url_height = 2, url_data =
        [255, 255, 255, 255,  255, 255, 255, 255,  51, 51, 51, 255,  51, 51, 51, 255] \<rparr>,
      clearcoatMap = None \<rparr>"

text \<open>The maps expected when the same image is the varnish mask and there is no
  white mask: the first two pixels are varnished, the last two are not.\<close>

definition exampleVarnishMaps :: texture_maps where
  "exampleVarnishMaps =
    \<lparr> metalnessMap = \<lparr> url_width = 2, url_height = 2, url_data =
        [0, 0, 0, 255,  0, 0, 0, 255,  0, 0, 0, 255,  0, 0, 0, 255] \<rparr>,
      roughnessMap = \<lparr> url_width = 2, url_height = 2, url_data =
        [5, 5, 5, 255,  5, 5, 5, 255,  255, 255, 255, 255,  255, 255, 255, 255] \<rparr>,
      clearcoatMap = Some \<lparr> url_width = 2, url_height = 2, url_data =
        [255, 255, 255, 255,  255, 255, 255, 255,  0, 0, 0, 255,  0, 0, 0, 255] \<rparr> \<rparr>"

text \<open>A 1 by 1 varnish mask that is black at every scale.\<close>

definition exampleDot :: image where
  "exampleDot = \<lparr> width = 1, height = 1, drawn = (\<lambda>w h i. if i mod 4 = 3 then 255 else 0) \<rparr>"

section \<open>Properties of the loops\<close>

text \<open>An invariant that holds before the loop and is kept by every iteration holds
  when the loop ends, for the index at which it ends.\<close>

lemma for4_rule:
  assumes "P i s"
    and "\<And>j t. i \<le> j \<Longrightarrow> j < n \<Longrightarrow> P j t \<Longrightarrow> P (j + 4) (body j t)"
  shows "\<exists>j. n \<le> j \<and> P j (for4 i n body s)"
  using assms
proof (induction i n body s rule: for4.induct)
  case (1 i n body s)
  show ?case
  proof (cases "i < n")
    case True
    have "\<exists>j. n \<le> j \<and> P j (for4 (i + 4) n body (body i s))"
    proof (rule "1.IH" [OF True])
      show "P (i + 4) (body i s)" using "1.prems" True by simp
    next
      fix j t assume "i + 4 \<le> j" "j < n" "P j t"
      then show "P (j + 4) (body j t)" using "1.prems"(2) [of j t] by simp
    qed
    then show ?thesis using True by (subst for4.simps) simp
  next
    case False
    then have "n \<le> i \<and> P i (for4 i n body s)"
      using "1.prems"(1) by (subst for4.simps) simp
    then show ?thesis by blast
  qed
qed

subsection \<open>Bytes and pixel offsets\<close>

lemma byte_sub255: "unat (255 - (b :: byte)) = 255 - unat b"
proof -
  have "unat b < 2 ^ LENGTH(8)" by (rule unsigned_less)
  then have "b \<le> 255" by (simp add: word_le_nat_alt)
  then show ?thesis by (simp add: unat_sub)
qed

lemma byte_complement: "unat (255 - (b :: byte)) + unat b = 255"
proof -
  have "unat b < 2 ^ LENGTH(8)" by (rule unsigned_less)
  then have "unat b \<le> 255" by simp
  then show ?thesis by (simp add: byte_sub255)
qed

lemma pixel_cases:
  assumes "4 dvd (j::nat)" "j \<le> k" "k < j + 4"
  obtains "k = j" "k mod 4 = 0"
    | "k = j + 1" "k mod 4 = 1"
    | "k = j + 2" "k mod 4 = 2"
    | "k = j + 3" "k mod 4 = 3"
proof -
  from assms(1) obtain q where q: "j = 4 * q" by (auto simp: dvd_def)
  have m: "(4 * q) mod 4 = 0" "(4 * q + 1) mod 4 = 1" "(4 * q + 2) mod 4 = 2" "(4 * q + 3) mod 4 = 3"
    unfolding mod_mult_self4 by simp_all
  consider "k = j" | "k = j + 1" | "k = j + 2" | "k = j + 3"
    using assms(2,3) by linarith
  then show thesis
  proof cases
    case 1
    have "k mod 4 = 0" unfolding 1 q by (rule m(1))
    with 1 show thesis by (rule that(1))
  next
    case 2
    have "k mod 4 = 1" unfolding 2 q by (rule m(2))
    with 2 show thesis by (rule that(2))
  next
    case 3
    have "k mod 4 = 2" unfolding 3 q by (rule m(3))
    with 3 show thesis by (rule that(3))
  next
    case 4
    have "k mod 4 = 3" unfolding 4 q by (rule m(4))
    with 4 show thesis by (rule that(4))
  qed
qed

lemma pixel_in_range:
  assumes "4 dvd (n::nat)" "4 dvd i" "i < n"
  shows "i + 3 < n"
proof -
  from assms(1) obtain a where a: "n = 4 * a" by (auto simp: dvd_def)
  from assms(2) obtain c where c: "i = 4 * c" by (auto simp: dvd_def)
  from assms(3) have "c < a" unfolding a c by simp
  then have "4 * c + 3 < 4 * a" by linarith
  then show ?thesis unfolding a c .
qed

subsection \<open>Inversion\<close>

lemma length_invertStep [simp]: "length (fst (invertStep name i s)) = length (fst s)"
  by (cases s) (simp add: invertStep_def rd_def wr_def Let_def)

lemma nth_invertStep:
  "k < length (fst s) \<Longrightarrow>
   fst (invertStep name i s) ! k =
     (if k = i \<or> k = i + 1 \<or> k = i + 2 then 255 - fst s ! k else fst s ! k)"
  by (cases s) (auto simp: invertStep_def rd_def wr_def Let_def ld_def inv255_def nth_list_update)

lemma invert_spec:
  "length (fst (invert name d)) = length d \<and>
   (\<forall>k < length d. fst (invert name d) ! k = (if k mod 4 = 3 then d ! k else 255 - d ! k))"
proof -
  let ?P = "\<lambda>j (t :: byte list \<times> access list). 4 dvd j \<and> length (fst t) = length d \<and>
     (\<forall>k < length d. fst t ! k = (if k < j \<and> k mod 4 \<noteq> 3 then 255 - d ! k else d ! k))"
  have "\<exists>j. length d \<le> j \<and> ?P j (for4 0 (length d) (invertStep name) (d, []))"
  proof (rule for4_rule [where P = ?P])
    show "?P 0 (d, [])" by simp
  next
    fix j and t :: "byte list \<times> access list"
    assume j: "0 \<le> j" "j < length d" and P: "?P j t"
    have dv: "4 dvd j" using P by simp
    have len: "length (fst t) = length d" using P by simp
    have "\<forall>k < length d. fst (invertStep name j t) ! k =
        (if k < j + 4 \<and> k mod 4 \<noteq> 3 then 255 - d ! k else d ! k)"
    proof (intro allI impI)
      fix k assume k: "k < length d"
      have tk: "fst t ! k = (if k < j \<and> k mod 4 \<noteq> 3 then 255 - d ! k else d ! k)"
        using P k by simp
      have idx: "(k = j \<or> k = j + 1 \<or> k = j + 2) \<longleftrightarrow> (\<not> k < j \<and> k < j + 4 \<and> k mod 4 \<noteq> 3)"
      proof (cases "j \<le> k \<and> k < j + 4")
        case True
        then show ?thesis by (elim conjE pixel_cases [OF dv]) simp_all
      next
        case False
        then show ?thesis by auto
      qed
      have "fst (invertStep name j t) ! k =
          (if k = j \<or> k = j + 1 \<or> k = j + 2 then 255 - fst t ! k else fst t ! k)"
        using k len by (simp only: nth_invertStep)
      also have "\<dots> = (if k < j + 4 \<and> k mod 4 \<noteq> 3 then 255 - d ! k else d ! k)"
        unfolding idx tk by auto
      finally show "fst (invertStep name j t) ! k =
        (if k < j + 4 \<and> k mod 4 \<noteq> 3 then 255 - d ! k else d ! k)" .
    qed
    then show "?P (j + 4) (invertStep name j t)" using dv len by simp
  qed
  then show ?thesis by (auto simp: invert_def)
qed

lemma length_invert [simp]: "length (fst (invert name d)) = length d"
  using invert_spec [of name d] by simp

lemma nth_invert:
  "k < length d \<Longrightarrow> fst (invert name d) ! k = (if k mod 4 = 3 then d ! k else 255 - d ! k)"
  using invert_spec [of name d] by simp

lemma length_getImageData [simp]: "length (getImageData img w h) = w * h * 4"
  by (simp add: getImageData_def)

lemma length_whiteInkData [simp]: "length (whiteInkData whiteImg w h) = w * h * 4"
  by (simp add: whiteInkData_def whiteInkStep_def split: option.splits)

lemma varnishData_Some:
  "varnishData (Some vImg) w h = Some (fst (invert Varnish (getImageData vImg w h)))"
  by (simp add: varnishData_def varnishStep_def split_def Let_def)

lemma snd_varnishStep:
  "snd (varnishStep (Some vImg) w h) = snd (invert Varnish (getImageData vImg w h))"
  by (simp add: varnishStep_def split_def Let_def)

lemma varnishData_None [simp]: "varnishData None w h = None"
  by (simp add: varnishData_def varnishStep_def)

subsection \<open>The per-pixel loop\<close>

lemma length_fill4 [simp]: "length (fst (fill4 name d i v)) = length d"
  by (simp add: fill4_def wr_def Let_def)

lemma nth_fill4:
  "k < length d \<Longrightarrow>
   fst (fill4 name d i v) ! k =
     (if k = i + 3 then 255 else if k = i \<or> k = i + 1 \<or> k = i + 2 then v else d ! k)"
  by (auto simp: fill4_def wr_def Let_def nth_list_update)

lemma snd_fill4:
  "snd (fill4 name d i v) =
     [(name, i, length d), (name, i + 1, length d), (name, i + 2, length d), (name, i + 3, length d)]"
  by (simp add: fill4_def wr_def Let_def)

lemma metalnessData_pixelStep:
  "metalnessData (pixelStep wd vd mv pv i b) =
     fst (fill4 Metalness (metalnessData b) i (inv255 (ld wd i)))"
  by (simp add: pixelStep_def rd_def Let_def split_def)

lemma clearcoatData_pixelStep:
  "clearcoatData (pixelStep wd vd mv pv i b) =
    (case clearcoatData b of
       None \<Rightarrow> None
     | Some c \<Rightarrow> (case vd of None \<Rightarrow> Some c
                 | Some v \<Rightarrow> Some (fst (fill4 Clearcoat c i (if gt100 (ld v i) then 255 else 0)))))"
  by (simp add: pixelStep_def rd_def Let_def split_def split: option.splits)

lemma roughnessData_pixelStep:
  "roughnessData (pixelStep wd vd mv pv i b) =
    fst (fill4 Roughness (roughnessData b) i
      (if (case clearcoatData b of None \<Rightarrow> False
           | Some c \<Rightarrow> (case vd of None \<Rightarrow> False | Some v \<Rightarrow> gt100 (ld v i)))
       then varnishRoughVal else roughByte mv pv (ld wd i)))"
  by (simp add: pixelStep_def rd_def Let_def split_def split: option.splits)

lemma accessed_pixelStep:
  "accessed (pixelStep wd vd mv pv i b) =
     accessed b @ [(WhiteInk, i, length wd)]
       @ snd (fill4 Metalness (metalnessData b) i 0)
       @ (case clearcoatData b of
            None \<Rightarrow> []
          | Some c \<Rightarrow> (case vd of None \<Rightarrow> []
                      | Some v \<Rightarrow> (Varnish, i, length v) # snd (fill4 Clearcoat c i 0)))
       @ snd (fill4 Roughness (roughnessData b) i 0)"
  by (simp add: pixelStep_def rd_def Let_def split_def snd_fill4 split: option.splits)

text \<open>A loop whose body fills the four bytes of pixel \<open>j\<close> of one buffer with a value
  that depends on \<open>j\<close> only, as long as an invariant of the state holds.\<close>

lemma fill_loop:
  assumes init: "I s"
    and keep: "\<And>j t. I t \<Longrightarrow> I (body j t)"
    and body: "\<And>j t. I t \<Longrightarrow> sel (body j t) = fst (fill4 name (sel t) j (val j))"
  shows "I (for4 0 n body s) \<and> length (sel (for4 0 n body s)) = length (sel s) \<and>
    (\<forall>k. k < n \<longrightarrow> k < length (sel s) \<longrightarrow>
       sel (for4 0 n body s) ! k = (if k mod 4 = 3 then 255 else val (k - k mod 4)))"
proof -
  let ?P = "\<lambda>j t. I t \<and> 4 dvd j \<and> length (sel t) = length (sel s) \<and>
     (\<forall>k. k < j \<longrightarrow> k < length (sel s) \<longrightarrow>
        sel t ! k = (if k mod 4 = 3 then 255 else val (k - k mod 4)))"
  have "\<exists>j. n \<le> j \<and> ?P j (for4 0 n body s)"
  proof (rule for4_rule [where P = ?P])
    show "?P 0 s" using init by simp
  next
    fix j t assume j: "0 \<le> j" "j < n" and P: "?P j t"
    have I: "I t" using P by simp
    have dv: "4 dvd j" using P by simp
    have len: "length (sel t) = length (sel s)" using P by simp
    have old: "\<And>k. k < j \<Longrightarrow> k < length (sel s) \<Longrightarrow>
        sel t ! k = (if k mod 4 = 3 then 255 else val (k - k mod 4))"
      using P by simp
    have step: "sel (body j t) = fst (fill4 name (sel t) j (val j))" by (rule body [OF I])
    have "sel (body j t) ! k = (if k mod 4 = 3 then 255 else val (k - k mod 4))"
      if k: "k < j + 4" "k < length (sel s)" for k
    proof (cases "k < j")
      case True
      then have "sel (body j t) ! k = sel t ! k"
        using k len by (simp add: step nth_fill4)
      then show ?thesis using old [OF True k(2)] by simp
    next
      case False
      then have "j \<le> k" by simp
      from dv this k(1) show ?thesis
      proof (cases rule: pixel_cases)
        case 1
        then show ?thesis using k len by (simp add: step nth_fill4)
      next
        case 2
        then show ?thesis using k len by (simp add: step nth_fill4)
      next
        case 3
        then show ?thesis using k len by (simp add: step nth_fill4)
      next
        case 4
        then show ?thesis using k len by (simp add: step nth_fill4)
      qed
    qed
    then show "?P (j + 4) (body j t)" using dv len keep [OF I] by (simp add: step)
  qed
  then obtain j where "n \<le> j" "?P j (for4 0 n body s)" by blast
  then show ?thesis by auto
qed

lemma loop_metalness:
  "length (metalnessData (for4 0 n (pixelStep wd vd mv pv) init)) = length (metalnessData init) \<and>
   (\<forall>k. k < n \<longrightarrow> k < length (metalnessData init) \<longrightarrow>
      metalnessData (for4 0 n (pixelStep wd vd mv pv) init) ! k =
        (if k mod 4 = 3 then 255 else inv255 (ld wd (k - k mod 4))))"
  using fill_loop [where I = "\<lambda>_. True" and sel = metalnessData and body = "pixelStep wd vd mv pv"
      and name = Metalness and val = "\<lambda>j. inv255 (ld wd j)" and s = init and n = n]
  by (simp add: metalnessData_pixelStep)

lemma loop_clearcoat_None:
  assumes "clearcoatData init = None"
  shows "clearcoatData (for4 0 n (pixelStep wd vd mv pv) init) = None"
  using fill_loop [where I = "\<lambda>t::buffers. clearcoatData t = None" and sel = metalnessData
      and body = "pixelStep wd vd mv pv" and name = Metalness and val = "\<lambda>j. inv255 (ld wd j)"
      and s = init and n = n] assms
  by (simp add: metalnessData_pixelStep clearcoatData_pixelStep)

lemma loop_clearcoat_Some:
  assumes "clearcoatData init = Some c0"
  shows "\<exists>c. clearcoatData (for4 0 n (pixelStep wd (Some v) mv pv) init) = Some c \<and>
     length c = length c0 \<and>
     (\<forall>k. k < n \<longrightarrow> k < length c0 \<longrightarrow>
        c ! k = (if k mod 4 = 3 then 255 else if gt100 (ld v (k - k mod 4)) then 255 else 0))"
proof -
  let ?sel = "\<lambda>t::buffers. case clearcoatData t of Some c \<Rightarrow> c | None \<Rightarrow> []"
  let ?b = "for4 0 n (pixelStep wd (Some v) mv pv) init"
  have "clearcoatData ?b \<noteq> None \<and> length (?sel ?b) = length (?sel init) \<and>
    (\<forall>k. k < n \<longrightarrow> k < length (?sel init) \<longrightarrow>
       ?sel ?b ! k = (if k mod 4 = 3 then 255 else (if gt100 (ld v (k - k mod 4)) then 255 else 0)))"
  proof (rule fill_loop [where I = "\<lambda>t::buffers. clearcoatData t \<noteq> None" and sel = ?sel
      and name = Clearcoat and val = "\<lambda>j. if gt100 (ld v j) then 255 else 0"])
    show "clearcoatData init \<noteq> None" using assms by simp
  next
    fix j and t :: buffers assume "clearcoatData t \<noteq> None"
    then show "clearcoatData (pixelStep wd (Some v) mv pv j t) \<noteq> None"
      by (auto simp: clearcoatData_pixelStep)
  next
    fix j and t :: buffers assume "clearcoatData t \<noteq> None"
    then show "?sel (pixelStep wd (Some v) mv pv j t) =
        fst (fill4 Clearcoat (?sel t) j (if gt100 (ld v j) then 255 else 0))"
      by (auto simp: clearcoatData_pixelStep)
  qed
  then show ?thesis using assms by (auto split: option.splits)
qed

lemma loop_roughness:
  assumes "(clearcoatData init = None) = (vd = None)"
  shows "length (roughnessData (for4 0 n (pixelStep wd vd mv pv) init)) = length (roughnessData init) \<and>
   (\<forall>k. k < n \<longrightarrow> k < length (roughnessData init) \<longrightarrow>
      roughnessData (for4 0 n (pixelStep wd vd mv pv) init) ! k =
        (if k mod 4 = 3 then 255
         else if varnished vd (k - k mod 4) then varnishRoughVal
         else roughByte mv pv (ld wd (k - k mod 4))))"
proof -
  let ?I = "\<lambda>t::buffers. (clearcoatData t = None) = (vd = None)"
  let ?b = "for4 0 n (pixelStep wd vd mv pv) init"
  have "?I ?b \<and> length (roughnessData ?b) = length (roughnessData init) \<and>
    (\<forall>k. k < n \<longrightarrow> k < length (roughnessData init) \<longrightarrow>
       roughnessData ?b ! k = (if k mod 4 = 3 then 255 else
         (if varnished vd (k - k mod 4) then varnishRoughVal
          else roughByte mv pv (ld wd (k - k mod 4)))))"
  proof (rule fill_loop [where I = ?I and sel = roughnessData
      and name = Roughness and val = "\<lambda>j. if varnished vd j then varnishRoughVal else roughByte mv pv (ld wd j)"])
    show "?I init" by (rule assms)
  next
    fix j t assume "?I t"
    then show "?I (pixelStep wd vd mv pv j t)"
      by (auto simp: clearcoatData_pixelStep split: option.splits)
  next
    fix j t assume "?I t"
    then show "roughnessData (pixelStep wd vd mv pv j t) = fst (fill4 Roughness (roughnessData t) j
      (if varnished vd j then varnishRoughVal else roughByte mv pv (ld wd j)))"
      by (auto simp: roughnessData_pixelStep varnished_def split: option.splits)
  qed
  then show ?thesis by simp
qed

subsection \<open>Rounding and scaling\<close>

lemma roundTiesEven_floor: "\<lfloor>x\<rfloor> \<le> roundTiesEven x \<and> roundTiesEven x \<le> \<lfloor>x\<rfloor> + 1"
  by (simp add: roundTiesEven_def Let_def)

lemma roundTiesEven_bounds:
  assumes "0 \<le> x" "x \<le> 255"
  shows "0 \<le> roundTiesEven x \<and> roundTiesEven x \<le> 255"
proof -
  have f0: "0 \<le> \<lfloor>x\<rfloor>" using assms(1) by simp
  have f1: "\<lfloor>x\<rfloor> \<le> 255" using floor_mono [OF assms(2)] by simp
  show ?thesis
  proof (cases "\<lfloor>x\<rfloor> = 255")
    case True
    then have "x < real_of_int \<lfloor>x\<rfloor> + 1 / 2" using assms(2) by simp
    then have "roundTiesEven x = \<lfloor>x\<rfloor>" by (simp add: roundTiesEven_def Let_def)
    then show ?thesis using True by simp
  next
    case False
    then have "\<lfloor>x\<rfloor> + 1 \<le> 255" using f1 by linarith
    then show ?thesis using roundTiesEven_floor [of x] f0 by linarith
  qed
qed

lemma roundTiesEven_mono:
  assumes "x \<le> y"
  shows "roundTiesEven x \<le> roundTiesEven y"
proof (cases "\<lfloor>x\<rfloor> = \<lfloor>y\<rfloor>")
  case True
  then show ?thesis using assms by (auto simp: roundTiesEven_def Let_def)
next
  case False
  then have "\<lfloor>x\<rfloor> + 1 \<le> \<lfloor>y\<rfloor>" using floor_mono [OF assms] by simp
  then show ?thesis using roundTiesEven_floor [of x] roundTiesEven_floor [of y] by linarith
qed

lemma uint_ToUint8Clamp: "uint (ToUint8Clamp x) = roundTiesEven (min (max x 0) 255)"
proof -
  have "0 \<le> roundTiesEven (min (max x 0) 255) \<and> roundTiesEven (min (max x 0) 255) \<le> 255"
    by (rule roundTiesEven_bounds) simp_all
  then show ?thesis
    by (simp add: ToUint8Clamp_def uint_word_of_int)
qed

lemma ToUint8Clamp_mono:
  assumes "x \<le> y"
  shows "ToUint8Clamp x \<le> ToUint8Clamp y"
proof -
  have "min (max x 0) 255 \<le> min (max y 0) 255" using assms by auto
  then show ?thesis
    by (simp add: word_le_def uint_ToUint8Clamp roundTiesEven_mono)
qed

lemma roughVal_mono:
  assumes "mv \<le> pv" "r1 \<le> r2"
  shows "roughVal mv pv r1 \<le> roughVal mv pv r2"
proof -
  have "unat r1 \<le> unat r2" using assms(2) by (simp add: word_le_nat_alt)
  then have "real (unat r1) \<le> real (unat r2)" by (simp only: of_nat_le_iff)
  then have "real (unat r1) / 255 \<le> real (unat r2) / 255" by (rule divide_right_mono) simp
  moreover have "0 \<le> real_of_int (pv - mv)" using assms(1) by simp
  ultimately have "real (unat r1) / 255 * real_of_int (pv - mv) \<le> real (unat r2) / 255 * real_of_int (pv - mv)"
    by (rule mult_right_mono)
  then show ?thesis by (simp only: roughVal_def Let_def add_le_cancel_left)
qed

lemma scale_mono:
  assumes "0 \<le> mr" "mr \<le> pr" "pr \<le> 1"
  shows "metalRoughVal mr \<le> paperRoughVal pr"
proof -
  have "min 1 (max 0 mr) * 255 \<le> min 255 (pr * 255)" using assms by auto
  then show ?thesis unfolding metalRoughVal_def paperRoughVal_def by (rule floor_mono)
qed

text \<open>For any scale factors in order, the stored roughness is monotonic in the ink
  sample.\<close>

lemma roughness_sample_mono:
  assumes "mv \<le> pv" "r1 \<le> r2"
  shows "ToUint8Clamp (roughVal mv pv r1) \<le> ToUint8Clamp (roughVal mv pv r2)"
  by (rule ToUint8Clamp_mono) (rule roughVal_mono [OF assms])

text \<open>The interpolated value is a multiple of 1/255, so it is never a tie between
  two integers and stays at least 1/510 away from one: the ties-to-even rule of the
  conversion is never exercised by the roughness samples.\<close>

lemma roughVal_no_tie:
  "1 / 510 \<le> \<bar>roughVal mv pv r - (real_of_int n + 1 / 2)\<bar>"
proof -
  let ?e = "510 * mv + 2 * int (unat r) * (pv - mv)"
  let ?o = "510 * n + 255"
  have "even ?e" by simp
  moreover have "odd ?o" by simp
  ultimately have "?e \<noteq> ?o" by metis
  then have "1 \<le> \<bar>?e - ?o\<bar>" by linarith
  then have "1 \<le> \<bar>real_of_int (?e - ?o)\<bar>"
    by (metis of_int_abs of_int_1_le_iff)
  moreover have eq: "real_of_int (?e - ?o) = 510 * (roughVal mv pv r - (real_of_int n + 1 / 2))"
    by (simp add: roughVal_def Let_def algebra_simps)
  have "\<bar>real_of_int (?e - ?o)\<bar> = 510 * \<bar>roughVal mv pv r - (real_of_int n + 1 / 2)\<bar>"
    unfolding eq abs_mult by simp
  ultimately have "1 \<le> 510 * \<bar>roughVal mv pv r - (real_of_int n + 1 / 2)\<bar>"
    by (simp only:)
  then show ?thesis by simp
qed

subsection \<open>The output buffers\<close>

lemma runProcessing_Inr:
  assumes "runProcessing ctx mr pr tw th whiteImg varnishImg = Inr maps"
  shows "url_data (metalnessMap maps) = metalnessData (outputBuffers mr pr tw th whiteImg varnishImg)"
    and "url_data (roughnessMap maps) = roughnessData (outputBuffers mr pr tw th whiteImg varnishImg)"
    and "map_option url_data (clearcoatMap maps) = clearcoatData (outputBuffers mr pr tw th whiteImg varnishImg)"
  using assms
  by (auto simp: runProcessing_def Let_def createMapUrl_def option.map_comp comp_def option.map_ident
      split: if_splits)

lemma outputBuffers_metalness:
  fixes whiteImg varnishImg mr pr tw th
  defines "wd \<equiv> whiteInkData whiteImg (workWidth whiteImg varnishImg tw) (workHeight whiteImg varnishImg th)"
  defines "b \<equiv> outputBuffers mr pr tw th whiteImg varnishImg"
  shows "length (metalnessData b) = length wd"
    and "k < length wd \<Longrightarrow>
      metalnessData b ! k = (if k mod 4 = 3 then 255 else 255 - wd ! (k - k mod 4))"
proof -
  note l = loop_metalness [of "length wd" wd
      "varnishData varnishImg (workWidth whiteImg varnishImg tw) (workHeight whiteImg varnishImg th)"
      "metalRoughVal mr" "paperRoughVal pr"]
  show "length (metalnessData b) = length wd"
    using l unfolding b_def outputBuffers_def Let_def wd_def [symmetric] by simp
  show "metalnessData b ! k = (if k mod 4 = 3 then 255 else 255 - wd ! (k - k mod 4))"
    if k: "k < length wd"
  proof -
    have "k - k mod 4 < length wd" using k by simp
    then have "inv255 (ld wd (k - k mod 4)) = 255 - wd ! (k - k mod 4)"
      by (simp add: inv255_def ld_def)
    then show ?thesis
      using l k unfolding b_def outputBuffers_def Let_def wd_def [symmetric] by simp
  qed
qed

lemma outputBuffers_roughness:
  fixes whiteImg varnishImg mr pr tw th
  defines "w \<equiv> workWidth whiteImg varnishImg tw"
  defines "h \<equiv> workHeight whiteImg varnishImg th"
  defines "wd \<equiv> whiteInkData whiteImg w h"
  defines "b \<equiv> outputBuffers mr pr tw th whiteImg varnishImg"
  shows "length (roughnessData b) = length wd"
    and "k < length wd \<Longrightarrow>
      roughnessData b ! k =
        (if k mod 4 = 3 then 255
         else if varnished (varnishData varnishImg w h) (k - k mod 4) then varnishRoughVal
         else ToUint8Clamp (roughVal (metalRoughVal mr) (paperRoughVal pr) (wd ! (k - k mod 4))))"
proof -
  let ?init = "\<lparr> metalnessData = replicate (length wd) 0,
                  roughnessData = replicate (length wd) 0,
                  clearcoatData =
                    (case varnishImg of Some v \<Rightarrow> Some (replicate (length wd) 0) | None \<Rightarrow> None),
                  accessed = snd (whiteInkStep whiteImg w h) @ snd (varnishStep varnishImg w h) \<rparr>"
  have I: "(clearcoatData ?init = None) = (varnishData varnishImg w h = None)"
    by (cases varnishImg) (simp_all add: varnishData_Some)
  have b: "b = for4 0 (length wd) (pixelStep wd (varnishData varnishImg w h) (metalRoughVal mr) (paperRoughVal pr)) ?init"
    unfolding b_def outputBuffers_def Let_def wd_def w_def h_def ..
  note l = loop_roughness [OF I, of "length wd" wd "metalRoughVal mr" "paperRoughVal pr"]
  show "length (roughnessData b) = length wd"
    unfolding b using l by simp
  show "roughnessData b ! k =
        (if k mod 4 = 3 then 255
         else if varnished (varnishData varnishImg w h) (k - k mod 4) then varnishRoughVal
         else ToUint8Clamp (roughVal (metalRoughVal mr) (paperRoughVal pr) (wd ! (k - k mod 4))))"
    if k: "k < length wd"
  proof -
    have "k - k mod 4 < length wd" using k by simp
    then have "roughByte (metalRoughVal mr) (paperRoughVal pr) (ld wd (k - k mod 4)) =
        ToUint8Clamp (roughVal (metalRoughVal mr) (paperRoughVal pr) (wd ! (k - k mod 4)))"
      by (simp add: roughByte_def ld_def)
    then show ?thesis unfolding b using l k by simp
  qed
qed

lemma outputBuffers_clearcoat_None:
  "clearcoatData (outputBuffers mr pr tw th whiteImg None) = None"
  unfolding outputBuffers_def Let_def by (rule loop_clearcoat_None) simp

lemma outputBuffers_clearcoat_Some:
  fixes whiteImg vImg mr pr tw th
  defines "w \<equiv> workWidth whiteImg (Some vImg) tw"
  defines "h \<equiv> workHeight whiteImg (Some vImg) th"
  defines "vd \<equiv> fst (invert Varnish (getImageData vImg w h))"
  shows "\<exists>c. clearcoatData (outputBuffers mr pr tw th whiteImg (Some vImg)) = Some c \<and>
     length c = length vd \<and>
     (\<forall>k < length vd. c ! k = (if k mod 4 = 3 then 255 else if 100 < vd ! (k - k mod 4) then 255 else 0))"
proof -
  let ?wd = "whiteInkData whiteImg w h"
  let ?init = "\<lparr> metalnessData = replicate (length ?wd) 0,
                  roughnessData = replicate (length ?wd) 0,
                  clearcoatData = Some (replicate (length ?wd) 0),
                  accessed = snd (whiteInkStep whiteImg w h) @ snd (varnishStep (Some vImg) w h) \<rparr>"
  have len: "length vd = length ?wd" by (simp add: vd_def)
  have b: "outputBuffers mr pr tw th whiteImg (Some vImg) =
      for4 0 (length ?wd) (pixelStep ?wd (Some vd) (metalRoughVal mr) (paperRoughVal pr)) ?init"
    unfolding outputBuffers_def Let_def w_def h_def vd_def varnishData_Some by simp
  have "clearcoatData ?init = Some (replicate (length ?wd) 0)" by simp
  from loop_clearcoat_Some [OF this, of "length ?wd" ?wd vd "metalRoughVal mr" "paperRoughVal pr"]
  obtain c where c: "clearcoatData (outputBuffers mr pr tw th whiteImg (Some vImg)) = Some c"
      "length c = length ?wd"
      "\<And>k. k < length ?wd \<Longrightarrow>
         c ! k = (if k mod 4 = 3 then 255 else if gt100 (ld vd (k - k mod 4)) then 255 else 0)"
    unfolding b by auto
  have "c ! k = (if k mod 4 = 3 then 255 else if 100 < vd ! (k - k mod 4) then 255 else 0)"
    if "k < length vd" for k
  proof -
    have "k - k mod 4 < length vd" using that by simp
    then have "gt100 (ld vd (k - k mod 4)) = (100 < vd ! (k - k mod 4))"
      by (simp add: gt100_def ld_def)
    then show ?thesis using c(3) [of k] that len by simp
  qed
  then show ?thesis using c(1,2) len by auto
qed

lemma metalness_only_white:
  "metalnessData (outputBuffers mr1 pr1 tw1 th1 (Some img) v1)
   = metalnessData (outputBuffers mr2 pr2 tw2 th2 (Some img) v2)"
proof (rule nth_equalityI)
  show "length (metalnessData (outputBuffers mr1 pr1 tw1 th1 (Some img) v1))
      = length (metalnessData (outputBuffers mr2 pr2 tw2 th2 (Some img) v2))"
    by (simp add: outputBuffers_metalness(1) workWidth_def workHeight_def)
next
  fix k assume "k < length (metalnessData (outputBuffers mr1 pr1 tw1 th1 (Some img) v1))"
  then have k: "k < width img * height img * 4"
    by (simp add: outputBuffers_metalness(1) workWidth_def workHeight_def)
  have "metalnessData (outputBuffers mr pr tw th (Some img) v) ! k =
      (if k mod 4 = 3 then 255 else 255 - whiteInkData (Some img) (width img) (height img) ! (k - k mod 4))"
    for mr pr tw th v
    using outputBuffers_metalness(2) [of k "Some img" v tw th mr pr] k
    by (simp add: workWidth_def workHeight_def)
  then show "metalnessData (outputBuffers mr1 pr1 tw1 th1 (Some img) v1) ! k
      = metalnessData (outputBuffers mr2 pr2 tw2 th2 (Some img) v2) ! k"
    by simp
qed

lemma runProcessing_metalness_only_white:
  "map_sum id metalnessMap (runProcessing ctx mr1 pr1 tw1 th1 (Some img) v1)
   = map_sum id metalnessMap (runProcessing ctx mr2 pr2 tw2 th2 (Some img) v2)"
  using metalness_only_white [of mr1 pr1 tw1 th1 img v1 mr2 pr2 tw2 th2 v2]
  by (simp add: runProcessing_def Let_def workWidth_def workHeight_def)

lemma white_loaded:
  assumes "supplied imgSrc = Some src" "load env src = Some img"
  shows "\<exists>v. processTextureMaps env imgSrc varnishSrc mr pr tw th
      = runProcessing (context2d env) mr pr tw th (Some img) v"
  using assms by (auto simp: processTextureMaps_def Let_def split: option.splits)

lemma white_failed:
  assumes "supplied imgSrc = Some src" "load env src = None"
  shows "processTextureMaps env imgSrc varnishSrc mr pr tw th = Inl (ImageLoadError src)"
  using assms by (simp add: processTextureMaps_def Let_def)

subsection \<open>The recorded accesses\<close>

lemma snd_invertStep:
  "snd (invertStep name i s) =
     snd s @ [(name, i, length (fst s)), (name, i, length (fst s)),
              (name, i + 1, length (fst s)), (name, i + 1, length (fst s)),
              (name, i + 2, length (fst s)), (name, i + 2, length (fst s))]"
  by (cases s) (simp add: invertStep_def rd_def wr_def Let_def)

text \<open>The inversion loop over an array of whole pixels stays inside the array.\<close>

lemma invert_in_range:
  assumes four: "4 dvd length d"
  shows "\<forall>(name', i, len) \<in> set (snd (invert name d)). i < len \<and> len = length d"
proof -
  let ?P = "\<lambda>(j :: nat) (t :: byte list \<times> access list). 4 dvd j \<and> length (fst t) = length d \<and>
     (\<forall>(name', i, len) \<in> set (snd t). i < len \<and> len = length d)"
  have "\<exists>j. length d \<le> j \<and> ?P j (for4 0 (length d) (invertStep name) (d, []))"
  proof (rule for4_rule [where P = ?P])
    show "?P 0 (d, [])" by simp
  next
    fix j and t :: "byte list \<times> access list"
    assume j: "0 \<le> j" "j < length d" and P: "?P j t"
    have dv: "4 dvd j" and len: "length (fst t) = length d" using P by simp_all
    have old: "\<forall>(name', i, len) \<in> set (snd t). i < len \<and> len = length d" using P by simp
    have "j + 3 < length d" using four dv j(2) by (rule pixel_in_range)
    then have "\<forall>(name', i, len) \<in> set (snd (invertStep name j t)). i < len \<and> len = length d"
      using old len by (auto simp: snd_invertStep)
    then show "?P (j + 4) (invertStep name j t)" using dv len by simp
  qed
  then show ?thesis by (auto simp: invert_def)
qed

text \<open>The per-pixel loop stays inside every array it touches, provided the arrays it
  is given all have the length of the white-ink buffer, a whole number of pixels.\<close>

lemma pixel_loop_in_range:
  assumes four: "4 dvd length wd"
    and vd: "\<And>v. vd = Some v \<Longrightarrow> length v = length wd"
    and init: "length (metalnessData init) = length wd" "length (roughnessData init) = length wd"
      "\<And>c. clearcoatData init = Some c \<Longrightarrow> length c = length wd"
      "\<forall>(name, i, len) \<in> set (accessed init). i < len \<and> len = length wd"
  shows "\<forall>(name, i, len) \<in> set (accessed (for4 0 (length wd) (pixelStep wd vd mv pv) init)).
           i < len \<and> len = length wd"
proof -
  let ?P = "\<lambda>(j :: nat) (t :: buffers). 4 dvd j \<and>
     length (metalnessData t) = length wd \<and> length (roughnessData t) = length wd \<and>
     (\<forall>c. clearcoatData t = Some c \<longrightarrow> length c = length wd) \<and>
     (\<forall>(name, i, len) \<in> set (accessed t). i < len \<and> len = length wd)"
  have "\<exists>j. length wd \<le> j \<and> ?P j (for4 0 (length wd) (pixelStep wd vd mv pv) init)"
  proof (rule for4_rule [where P = ?P])
    show "?P 0 init" using init by simp
  next
    fix j and t :: buffers
    assume j: "0 \<le> j" "j < length wd" and P: "?P j t"
    have dv: "4 dvd j" using P by simp
    have lm: "length (metalnessData t) = length wd" and lr: "length (roughnessData t) = length wd"
      using P by simp_all
    have lc: "\<And>c. clearcoatData t = Some c \<Longrightarrow> length c = length wd" using P by simp
    have old: "\<forall>(name, i, len) \<in> set (accessed t). i < len \<and> len = length wd" using P by simp
    have r: "j + 3 < length wd" using four dv j(2) by (rule pixel_in_range)
    have mid: "\<forall>(name, i, len) \<in> set (case clearcoatData t of
            None \<Rightarrow> []
          | Some c \<Rightarrow> (case vd of None \<Rightarrow> []
                      | Some v \<Rightarrow> (Varnish, j, length v) # snd (fill4 Clearcoat c j 0))).
        i < len \<and> len = length wd"
    proof (cases "clearcoatData t")
      case None
      then show ?thesis by simp
    next
      case c: (Some c)
      show ?thesis
      proof (cases vd)
        case None
        with c show ?thesis by simp
      next
        case v: (Some v)
        have "length c = length wd" "length v = length wd"
          using lc [OF c] vd [OF v] by simp_all
        then show ?thesis using r by (simp add: c v snd_fill4)
      qed
    qed
    have "\<forall>(name, i, len) \<in> set (accessed (pixelStep wd vd mv pv j t)). i < len \<and> len = length wd"
      unfolding accessed_pixelStep set_append ball_Un
      using old mid r lm lr by (simp add: snd_fill4)
    moreover have "\<forall>c. clearcoatData (pixelStep wd vd mv pv j t) = Some c \<longrightarrow> length c = length wd"
    proof (intro allI impI)
      fix c assume a: "clearcoatData (pixelStep wd vd mv pv j t) = Some c"
      show "length c = length wd"
      proof (cases "clearcoatData t")
        case None
        with a show ?thesis by (simp add: clearcoatData_pixelStep)
      next
        case c0: (Some c0)
        have l0: "length c0 = length wd" by (rule lc [OF c0])
        show ?thesis
        proof (cases vd)
          case None
          with a c0 l0 show ?thesis by (simp add: clearcoatData_pixelStep)
        next
          case (Some v)
          with a c0 l0 show ?thesis by (auto simp: clearcoatData_pixelStep)
        qed
      qed
    qed
    ultimately show "?P (j + 4) (pixelStep wd vd mv pv j t)"
      using dv lm lr by (simp add: metalnessData_pixelStep roughnessData_pixelStep)
  qed
  then show ?thesis by auto
qed


text \<open>With a varnish buffer, the per-pixel loop reads both input buffers at the first
  offset of every pixel.\<close>

lemma pixel_loop_reads:
  assumes init: "clearcoatData init \<noteq> None"
  shows "\<forall>j < n. 4 dvd j \<longrightarrow>
     (WhiteInk, j, length wd) \<in> set (accessed (for4 0 n (pixelStep wd (Some v) mv pv) init)) \<and>
     (Varnish, j, length v) \<in> set (accessed (for4 0 n (pixelStep wd (Some v) mv pv) init))"
proof -
  let ?P = "\<lambda>(j :: nat) (t :: buffers). 4 dvd j \<and> clearcoatData t \<noteq> None \<and>
     (\<forall>k < j. 4 dvd k \<longrightarrow>
        (WhiteInk, k, length wd) \<in> set (accessed t) \<and> (Varnish, k, length v) \<in> set (accessed t))"
  have "\<exists>j. n \<le> j \<and> ?P j (for4 0 n (pixelStep wd (Some v) mv pv) init)"
  proof (rule for4_rule [where P = ?P])
    show "?P 0 init" using init by simp
  next
    fix j and t :: buffers
    assume j: "0 \<le> j" "j < n" and P: "?P j t"
    have dv: "4 dvd j" and cc: "clearcoatData t \<noteq> None" using P by simp_all
    have old: "\<And>k. k < j \<Longrightarrow> 4 dvd k \<Longrightarrow>
        (WhiteInk, k, length wd) \<in> set (accessed t) \<and> (Varnish, k, length v) \<in> set (accessed t)"
      using P by simp
    have new: "(WhiteInk, j, length wd) \<in> set (accessed (pixelStep wd (Some v) mv pv j t))"
      "(Varnish, j, length v) \<in> set (accessed (pixelStep wd (Some v) mv pv j t))"
      using cc by (auto simp: accessed_pixelStep)
    have "\<exists>rest. accessed (pixelStep wd (Some v) mv pv j t) = accessed t @ rest"
      by (simp add: accessed_pixelStep)
    then have grow: "set (accessed t) \<subseteq> set (accessed (pixelStep wd (Some v) mv pv j t))"
      by auto
    have "(WhiteInk, k, length wd) \<in> set (accessed (pixelStep wd (Some v) mv pv j t)) \<and>
          (Varnish, k, length v) \<in> set (accessed (pixelStep wd (Some v) mv pv j t))"
      if k: "k < j + 4" "4 dvd k" for k
    proof (cases "k < j")
      case True
      from old [OF True k(2)] grow show ?thesis by blast
    next
      case False
      then have "j \<le> k" by simp
      from dv this k(1) have "k = j"
      proof (cases rule: pixel_cases)
        case 1 then show ?thesis by simp
      next
        case 2 with k(2) show ?thesis by (simp add: mod_eq_0_iff_dvd [symmetric])
      next
        case 3 with k(2) show ?thesis by (simp add: mod_eq_0_iff_dvd [symmetric])
      next
        case 4 with k(2) show ?thesis by (simp add: mod_eq_0_iff_dvd [symmetric])
      qed
      with new show ?thesis by simp
    qed
    moreover have "clearcoatData (pixelStep wd (Some v) mv pv j t) \<noteq> None"
      using cc by (auto simp: clearcoatData_pixelStep)
    ultimately show "?P (j + 4) (pixelStep wd (Some v) mv pv j t)" using dv by simp
  qed
  then obtain j where "n \<le> j" "?P j (for4 0 n (pixelStep wd (Some v) mv pv) init)" by blast
  then show ?thesis by auto
qed

subsection \<open>The examples, evaluated\<close>

lemma example_sizes:
  "workWidth (Some exampleMask) None 1024 = 2" "workHeight (Some exampleMask) None 1024 = 2"
  "workWidth None (Some exampleMask) 1024 = 2" "workHeight None (Some exampleMask) 1024 = 2"
  "workWidth (Some exampleMask) (Some exampleDot) 1024 = 2"
  "workHeight (Some exampleMask) (Some exampleDot) 1024 = 2"
  by (simp_all add: workWidth_def workHeight_def exampleMask_def)

lemma example_run:
  "runProcessing True (1 / 5) 1 1024 1024 (Some exampleMask) None = Inr exampleMaps"
  by code_simp

lemma example_run_varnish:
  "runProcessing True (1 / 5) 1 1024 1024 None (Some exampleMask) = Inr exampleVarnishMaps"
  by code_simp

lemma example_ink: "whiteInkData (Some exampleMask) 2 2 =
   [255, 255, 255, 255,  255, 255, 255, 255,  0, 0, 0, 255,  0, 0, 0, 255]"
  by code_simp

lemma example_varnish_only:
  "varnishData (Some exampleMask) 2 2 =
   Some [255, 255, 255, 255,  255, 255, 255, 255,  0, 0, 0, 255,  0, 0, 0, 255]"
  by code_simp

lemma example_process:
  "processTextureMaps exampleBrowser (Some ''white.png'') None (1 / 5) 1 1024 1024 = Inr exampleMaps"
  by code_simp

lemma example_samples:
  "samples (getImageData exampleMask 2 2) = [0, 0, 255, 255]"
  "samples (whiteInkData (Some exampleMask) 2 2) = [255, 255, 0, 0]"
  "samples (url_data (metalnessMap exampleMaps)) = [0, 0, 255, 255]"
  "samples (url_data (roughnessMap exampleMaps)) = [255, 255, 51, 51]"
  by code_simp+

section \<open>The material parameters of the two consumers\<close>

text \<open>Where all three generated maps exist and the varnish thickness is a number
  other than zero, or where there is no varnish map and the other two maps exist, the
  export builds the material of the viewer.\<close>

lemma viewer_export_agree:
  assumes "truthy_str metalnessMapUrl" "truthy_str roughnessMapUrl"
    and "truthy_str clearcoatMapUrl \<longrightarrow> truthy_num (varnishBump config)"
  shows "generateStandaloneHtml cmykUrl metalnessMapUrl roughnessMapUrl clearcoatMapUrl config isPaperPreview
       = PrintMesh cmykUrl metalnessMapUrl roughnessMapUrl clearcoatMapUrl config isPaperPreview"
  using assms
  by (auto simp: generateStandaloneHtml_def PrintMesh_def Let_def truthy_str_def truthy_num_def
      or_str_def or_num_def split: option.splits)

text \<open>In metal mode without generated maps the two differ as well: the viewer binds
  the artwork as metalness map with scalar 1, the export binds nothing with scalar 0.\<close>

lemma missing_maps_divergence:
  "mat_metalness (PrintMesh ''cmyk.png'' None None None DEFAULT_CONFIG False) = 1 \<and>
   mat_metalnessMap (PrintMesh ''cmyk.png'' None None None DEFAULT_CONFIG False) = Some (Texture ''cmyk.png'') \<and>
   mat_metalness (generateStandaloneHtml ''cmyk.png'' None None None DEFAULT_CONFIG False) = 0 \<and>
   mat_metalnessMap (generateStandaloneHtml ''cmyk.png'' None None None DEFAULT_CONFIG False) = None"
  by (simp add: generateStandaloneHtml_def PrintMesh_def Let_def truthy_str_def or_str_def)

text \<open>
  Claim C1, which the code does not meet: the viewer and the export are to compute the
  same material parameters for every configuration, with a bump scale of
  \<open>config.varnishBump\<close>, default 0.02, when a varnish map exists. With all three maps
  present and \<open>varnishBump\<close> undefined or 0, the viewer takes the default 0.02
  (\<open>config.varnishBump || 0.02\<close>) and the export takes 0.
\<close>

theorem bumpScale_default_divergence:
  "mat_bumpScale (PrintMesh ''cmyk.png'' (Some ''metal.png'') (Some ''rough.png'') (Some ''coat.png'')
      (DEFAULT_CONFIG\<lparr>varnishBump := None\<rparr>) False) = 2 / 100 \<and>
   mat_bumpScale (generateStandaloneHtml ''cmyk.png'' (Some ''metal.png'') (Some ''rough.png'') (Some ''coat.png'')
      (DEFAULT_CONFIG\<lparr>varnishBump := None\<rparr>) False) = 0 \<and>
   mat_bumpScale (PrintMesh ''cmyk.png'' (Some ''metal.png'') (Some ''rough.png'') (Some ''coat.png'')
      (DEFAULT_CONFIG\<lparr>varnishBump := Some 0\<rparr>) False) = 2 / 100 \<and>
   mat_bumpScale (generateStandaloneHtml ''cmyk.png'' (Some ''metal.png'') (Some ''rough.png'') (Some ''coat.png'')
      (DEFAULT_CONFIG\<lparr>varnishBump := Some 0\<rparr>) False) = 0"
  by (simp add: generateStandaloneHtml_def PrintMesh_def Let_def truthy_str_def truthy_num_def
      or_str_def or_num_def DEFAULT_CONFIG_def)

text \<open>Hence the two materials differ at that input.\<close>

theorem bumpScale_default_divergence_witness:
  "PrintMesh ''cmyk.png'' (Some ''metal.png'') (Some ''rough.png'') (Some ''coat.png'')
      (DEFAULT_CONFIG\<lparr>varnishBump := None\<rparr>) False
   \<noteq> generateStandaloneHtml ''cmyk.png'' (Some ''metal.png'') (Some ''rough.png'') (Some ''coat.png'')
      (DEFAULT_CONFIG\<lparr>varnishBump := None\<rparr>) False"
proof
  assume "PrintMesh ''cmyk.png'' (Some ''metal.png'') (Some ''rough.png'') (Some ''coat.png'')
      (DEFAULT_CONFIG\<lparr>varnishBump := None\<rparr>) False
   = generateStandaloneHtml ''cmyk.png'' (Some ''metal.png'') (Some ''rough.png'') (Some ''coat.png'')
      (DEFAULT_CONFIG\<lparr>varnishBump := None\<rparr>) False"
  then have "mat_bumpScale (PrintMesh ''cmyk.png'' (Some ''metal.png'') (Some ''rough.png'') (Some ''coat.png'')
      (DEFAULT_CONFIG\<lparr>varnishBump := None\<rparr>) False)
   = mat_bumpScale (generateStandaloneHtml ''cmyk.png'' (Some ''metal.png'') (Some ''rough.png'') (Some ''coat.png'')
      (DEFAULT_CONFIG\<lparr>varnishBump := None\<rparr>) False)"
    by (rule arg_cong)
  with bumpScale_default_divergence show False by auto
qed

text \<open>
  Claim C4: with a varnish map and paper preview, for every configuration, both
  consumers set the metalness scalar to 0 and bind the clearcoat map. The viewer keeps
  the metalness and roughness maps bound; the export binds each of the two generated
  maps whose URL it is given.
\<close>

theorem paper_varnish_zero_metalness:
  fixes cmykUrl :: string and metalnessMapUrl roughnessMapUrl clearcoatMapUrl :: "string option"
    and cfg :: PrintConfig
  defines "v \<equiv> PrintMesh cmykUrl metalnessMapUrl roughnessMapUrl clearcoatMapUrl cfg True"
    and "e \<equiv> generateStandaloneHtml cmykUrl metalnessMapUrl roughnessMapUrl clearcoatMapUrl cfg True"
  assumes "truthy_str clearcoatMapUrl"
  shows "mat_metalness v = 0 \<and> mat_clearcoatMap v = map_option Texture clearcoatMapUrl
     \<and> mat_metalnessMap v \<noteq> None \<and> mat_roughnessMap v \<noteq> None
     \<and> mat_metalness e = 0 \<and> mat_clearcoatMap e = map_option Texture clearcoatMapUrl
     \<and> (truthy_str metalnessMapUrl \<longrightarrow> mat_metalnessMap e = map_option Texture metalnessMapUrl)
     \<and> (truthy_str roughnessMapUrl \<longrightarrow> mat_roughnessMap e = map_option Texture roughnessMapUrl)"
  using assms
  by (auto simp: generateStandaloneHtml_def PrintMesh_def Let_def truthy_str_def or_str_def
      split: option.splits)

theorem paper_varnish_zero_metalness_witness:
  "truthy_str (Some ''coat.png'') \<and> truthy_str (Some ''metal.png'') \<and> truthy_str (Some ''rough.png'') \<and>
   mat_metalness (PrintMesh ''cmyk.png'' (Some ''metal.png'') (Some ''rough.png'') (Some ''coat.png'') DEFAULT_CONFIG True) = 0 \<and>
   mat_clearcoatMap (PrintMesh ''cmyk.png'' (Some ''metal.png'') (Some ''rough.png'') (Some ''coat.png'') DEFAULT_CONFIG True)
     = Some (Texture ''coat.png'') \<and>
   mat_metalness (generateStandaloneHtml ''cmyk.png'' (Some ''metal.png'') (Some ''rough.png'') (Some ''coat.png'') DEFAULT_CONFIG True) = 0 \<and>
   mat_clearcoatMap (generateStandaloneHtml ''cmyk.png'' (Some ''metal.png'') (Some ''rough.png'') (Some ''coat.png'') DEFAULT_CONFIG True)
     = Some (Texture ''coat.png'') \<and>
   mat_metalnessMap (generateStandaloneHtml ''cmyk.png'' (Some ''metal.png'') (Some ''rough.png'') (Some ''coat.png'') DEFAULT_CONFIG True)
     = Some (Texture ''metal.png'')"
proof -
  have h: "truthy_str (Some ''coat.png'')" "truthy_str (Some ''metal.png'')" "truthy_str (Some ''rough.png'')"
    by (simp_all add: truthy_str_def)
  from paper_varnish_zero_metalness [OF h(1), of "''cmyk.png''" "Some ''metal.png''" "Some ''rough.png''" DEFAULT_CONFIG]
  show ?thesis using h by simp
qed

text \<open>
  Claim C5: for every material either consumer produces, exactly one of the three
  clearcoat states holds (driven by the map with scalar 1, driven by a scalar alone,
  zero), and the clearcoat map is never bound with a scalar other than 1.
\<close>

theorem clearcoat_exactly_one:
  fixes cmykUrl :: string and metalnessMapUrl roughnessMapUrl clearcoatMapUrl :: "string option"
    and cfg :: PrintConfig and isPaperPreview :: bool
  defines "v \<equiv> PrintMesh cmykUrl metalnessMapUrl roughnessMapUrl clearcoatMapUrl cfg isPaperPreview"
    and "e \<equiv> generateStandaloneHtml cmykUrl metalnessMapUrl roughnessMapUrl clearcoatMapUrl cfg isPaperPreview"
  shows "exactly_one (coat_by_map v) (coat_by_scalar v) (coat_zero v)
     \<and> (mat_clearcoatMap v \<noteq> None \<longrightarrow> mat_clearcoat v = 1)
     \<and> exactly_one (coat_by_map e) (coat_by_scalar e) (coat_zero e)
     \<and> (mat_clearcoatMap e \<noteq> None \<longrightarrow> mat_clearcoat e = 1)"
  unfolding v_def e_def
  by (auto simp: generateStandaloneHtml_def PrintMesh_def Let_def truthy_str_def
      exactly_one_def coat_by_map_def coat_by_scalar_def coat_zero_def split: option.splits)

theorem clearcoat_exactly_one_witness:
  "mat_clearcoatMap (PrintMesh ''cmyk.png'' (Some ''metal.png'') (Some ''rough.png'') (Some ''coat.png'') DEFAULT_CONFIG True) \<noteq> None \<and>
   mat_clearcoat (PrintMesh ''cmyk.png'' (Some ''metal.png'') (Some ''rough.png'') (Some ''coat.png'') DEFAULT_CONFIG True) = 1 \<and>
   coat_by_map (PrintMesh ''cmyk.png'' (Some ''metal.png'') (Some ''rough.png'') (Some ''coat.png'') DEFAULT_CONFIG True) \<and>
   \<not> coat_by_scalar (PrintMesh ''cmyk.png'' (Some ''metal.png'') (Some ''rough.png'') (Some ''coat.png'') DEFAULT_CONFIG True) \<and>
   \<not> coat_zero (PrintMesh ''cmyk.png'' (Some ''metal.png'') (Some ''rough.png'') (Some ''coat.png'') DEFAULT_CONFIG True)"
proof -
  let ?v = "PrintMesh ''cmyk.png'' (Some ''metal.png'') (Some ''rough.png'') (Some ''coat.png'') DEFAULT_CONFIG True"
  have bound: "mat_clearcoatMap ?v \<noteq> None"
    by (simp add: PrintMesh_def Let_def truthy_str_def)
  note t = clearcoat_exactly_one [of "''cmyk.png''" "Some ''metal.png''" "Some ''rough.png''" "Some ''coat.png''" DEFAULT_CONFIG True]
  from t bound have one: "mat_clearcoat ?v = 1" by blast
  with bound have a: "coat_by_map ?v" by (simp add: coat_by_map_def)
  from t have "exactly_one (coat_by_map ?v) (coat_by_scalar ?v) (coat_zero ?v)" by blast
  with a have "\<not> coat_by_scalar ?v \<and> \<not> coat_zero ?v" by (auto simp: exactly_one_def)
  with bound one a show ?thesis by blast
qed

section \<open>Map synthesis\<close>

text \<open>
  Claim C2 as stated fails: a varnish mask that is supplied and cannot be decoded does
  not make the call fail when the white mask decodes. The browser of the example cannot
  decode \<open>varnish.png\<close>, and the call resolves with the maps of the white mask alone.
  In the other direction, the call rejects with a mask that decodes when the canvas gives
  no 2D context.
\<close>

theorem varnish_decode_failure_swallowed:
  "supplied (Some ''varnish.png'') = Some ''varnish.png'' \<and>
   load exampleBrowser ''varnish.png'' = None \<and>
   processTextureMaps exampleBrowser (Some ''white.png'') (Some ''varnish.png'') (1 / 5) 1 1024 1024
     = Inr exampleMaps \<and>
   load exampleBrowser ''white.png'' = Some exampleMask \<and>
   processTextureMaps (exampleBrowser\<lparr>context2d := False\<rparr>) (Some ''white.png'') None (1 / 5) 1 1024 1024
     = Inl NoCanvasContext"
proof -
  have "load exampleBrowser ''white.png'' = Some exampleMask"
    by (simp add: exampleBrowser_def)
  moreover have "supplied (Some ''varnish.png'') = Some ''varnish.png''"
    "load exampleBrowser ''varnish.png'' = None"
    "processTextureMaps exampleBrowser (Some ''white.png'') (Some ''varnish.png'') (1 / 5) 1 1024 1024
       = Inr exampleMaps"
    "processTextureMaps (exampleBrowser\<lparr>context2d := False\<rparr>) (Some ''white.png'') None (1 / 5) 1 1024 1024
       = Inl NoCanvasContext"
    by code_simp+
  ultimately show ?thesis by blast
qed

text \<open>
  Claim C2, amended: the call rejects if and only if neither mask is supplied, or the
  supplied white mask cannot be decoded, or no white mask is supplied and the supplied
  varnish mask cannot be decoded, or the canvas gives no 2D context. When the white mask
  decodes and the supplied varnish mask does not, the call behaves as if no varnish
  mask had been supplied; a call without varnish mask that resolves has no clearcoat
  map.
\<close>

theorem rejects_iff:
  "(isl (processTextureMaps env imgSrc varnishSrc mr pr tw th) \<longleftrightarrow>
      (supplied imgSrc = None \<and> supplied varnishSrc = None)
    \<or> (\<exists>src. supplied imgSrc = Some src \<and> load env src = None)
    \<or> (supplied imgSrc = None \<and> (\<exists>vsrc. supplied varnishSrc = Some vsrc \<and> load env vsrc = None))
    \<or> \<not> context2d env)
   \<and> (\<forall>src img vsrc. supplied imgSrc = Some src \<longrightarrow> load env src = Some img \<longrightarrow>
         supplied varnishSrc = Some vsrc \<longrightarrow> load env vsrc = None \<longrightarrow>
         processTextureMaps env imgSrc varnishSrc mr pr tw th
           = processTextureMaps env imgSrc None mr pr tw th)
   \<and> (\<forall>maps. processTextureMaps env imgSrc None mr pr tw th = Inr maps \<longrightarrow> clearcoatMap maps = None)"
proof (intro conjI allI impI)
  show "isl (processTextureMaps env imgSrc varnishSrc mr pr tw th) \<longleftrightarrow>
      (supplied imgSrc = None \<and> supplied varnishSrc = None)
    \<or> (\<exists>src. supplied imgSrc = Some src \<and> load env src = None)
    \<or> (supplied imgSrc = None \<and> (\<exists>vsrc. supplied varnishSrc = Some vsrc \<and> load env vsrc = None))
    \<or> \<not> context2d env"
    by (auto simp: processTextureMaps_def runProcessing_def Let_def split: option.splits)
next
  fix src img vsrc
  assume "supplied imgSrc = Some src" "load env src = Some img"
    "supplied varnishSrc = Some vsrc" "load env vsrc = None"
  then show "processTextureMaps env imgSrc varnishSrc mr pr tw th
           = processTextureMaps env imgSrc None mr pr tw th"
    by (simp add: processTextureMaps_def Let_def supplied_def)
next
  fix maps
  assume "processTextureMaps env imgSrc None mr pr tw th = Inr maps"
  then show "clearcoatMap maps = None"
    using outputBuffers_clearcoat_None
    by (auto simp: processTextureMaps_def runProcessing_def Let_def supplied_def split: option.splits if_splits)
qed

theorem rejects_iff_witness:
  "supplied (Some ''white.png'') = Some ''white.png'' \<and>
   load exampleBrowser ''white.png'' = Some exampleMask \<and>
   supplied (Some ''varnish.png'') = Some ''varnish.png'' \<and>
   load exampleBrowser ''varnish.png'' = None \<and>
   context2d exampleBrowser \<and>
   \<not> isl (processTextureMaps exampleBrowser (Some ''white.png'') (Some ''varnish.png'') (1 / 5) 1 1024 1024) \<and>
   processTextureMaps exampleBrowser (Some ''white.png'') (Some ''varnish.png'') (1 / 5) 1 1024 1024
     = processTextureMaps exampleBrowser (Some ''white.png'') None (1 / 5) 1 1024 1024 \<and>
   clearcoatMap exampleMaps = None"
proof -
  have h: "supplied (Some ''white.png'') = Some ''white.png''"
      "load exampleBrowser ''white.png'' = Some exampleMask"
      "supplied (Some ''varnish.png'') = Some ''varnish.png''"
      "load exampleBrowser ''varnish.png'' = None"
      "context2d exampleBrowser"
    by (simp_all add: supplied_def exampleBrowser_def)
  note r = rejects_iff [of exampleBrowser "Some ''white.png''" "Some ''varnish.png''" "1 / 5" 1 1024 1024]
  from r have "isl (processTextureMaps exampleBrowser (Some ''white.png'') (Some ''varnish.png'') (1 / 5) 1 1024 1024) \<longleftrightarrow>
      (supplied (Some ''white.png'') = None \<and> supplied (Some ''varnish.png'') = None)
    \<or> (\<exists>src. supplied (Some ''white.png'') = Some src \<and> load exampleBrowser src = None)
    \<or> (supplied (Some ''white.png'') = None \<and> (\<exists>vsrc. supplied (Some ''varnish.png'') = Some vsrc \<and> load exampleBrowser vsrc = None))
    \<or> \<not> context2d exampleBrowser"
    by (rule conjunct1)
  then have 1: "\<not> isl (processTextureMaps exampleBrowser (Some ''white.png'') (Some ''varnish.png'') (1 / 5) 1 1024 1024)"
    using h by simp
  have 2: "processTextureMaps exampleBrowser (Some ''white.png'') (Some ''varnish.png'') (1 / 5) 1 1024 1024
     = processTextureMaps exampleBrowser (Some ''white.png'') None (1 / 5) 1 1024 1024"
    using r h by blast
  have 3: "clearcoatMap exampleMaps = None"
    using r example_process by blast
  show ?thesis using h 1 2 3 by simp
qed

text \<open>
  Claim C3 as stated fails: for the 2 by 2 mask with raw red samples 0, 0, 255, 255,
  no varnish, \<open>metalRoughness = 0.2\<close> and \<open>paperRoughness = 1.0\<close>, the roughness samples
  are 255, 255, 51, 51, not 51, 51, 255, 255.
\<close>

theorem example_roughness_refuted:
  "processTextureMaps exampleBrowser (Some ''white.png'') None (1 / 5) 1 1024 1024 = Inr exampleMaps \<and>
   samples (getImageData exampleMask 2 2) = [0, 0, 255, 255] \<and>
   samples (url_data (roughnessMap exampleMaps)) = [255, 255, 51, 51] \<and>
   samples (url_data (roughnessMap exampleMaps)) \<noteq> [51, 51, 255, 255]"
  by (simp add: example_process example_samples)

text \<open>
  Claim C3, amended: for that input the inverted samples are 255, 255, 0, 0, the
  metalness samples are 0, 0, 255, 255 and the roughness samples are exactly
  255, 255, 51, 51: rough where ink covers, smooth where the metal is open.
\<close>

theorem example_maps:
  "processTextureMaps exampleBrowser (Some ''white.png'') None (1 / 5) 1 1024 1024 = Inr exampleMaps \<and>
   samples (getImageData exampleMask 2 2) = [0, 0, 255, 255] \<and>
   samples (whiteInkData (Some exampleMask) 2 2) = [255, 255, 0, 0] \<and>
   samples (url_data (metalnessMap exampleMaps)) = [0, 0, 255, 255] \<and>
   samples (url_data (roughnessMap exampleMaps)) = [255, 255, 51, 51]"
  by (simp add: example_process example_samples)

text \<open>
  Claim C6: when a varnish mask exists, the clearcoat map has, in the colour channels
  of every pixel, 255 if the inverted varnish sample of the pixel exceeds 100 and 0
  otherwise, and 255 in the alpha channel; no byte of the map is other than 0 or 255.
\<close>

theorem clearcoat_threshold:
  assumes run: "runProcessing ctx mr pr tw th whiteImg (Some vImg) = Inr maps"
    and vd: "varnishData (Some vImg) (workWidth whiteImg (Some vImg) tw) (workHeight whiteImg (Some vImg) th) = Some vd"
  shows "\<exists>c. clearcoatMap maps = Some c \<and> length (url_data c) = length vd \<and>
      (\<forall>k < length vd. url_data c ! k =
          (if k mod 4 = 3 then 255 else if 100 < vd ! (k - k mod 4) then 255 else 0)) \<and>
      set (url_data c) \<subseteq> {0, 255}"
proof -
  have vd': "vd = fst (invert Varnish (getImageData vImg (workWidth whiteImg (Some vImg) tw) (workHeight whiteImg (Some vImg) th)))"
    using vd by (simp add: varnishData_Some)
  from outputBuffers_clearcoat_Some [of mr pr tw th whiteImg vImg]
  obtain d where d: "clearcoatData (outputBuffers mr pr tw th whiteImg (Some vImg)) = Some d"
    "length d = length vd"
    "\<And>k. k < length vd \<Longrightarrow> d ! k = (if k mod 4 = 3 then 255 else if 100 < vd ! (k - k mod 4) then 255 else 0)"
    unfolding vd' by blast
  from runProcessing_Inr(3) [OF run] d(1) obtain c where c: "clearcoatMap maps = Some c" "url_data c = d"
    by (cases "clearcoatMap maps") auto
  have "set d \<subseteq> {0, 255}"
  proof
    fix x assume "x \<in> set d"
    then obtain k where "k < length d" "x = d ! k" by (auto simp: in_set_conv_nth)
    then show "x \<in> {0, 255}" using d(2) d(3) [of k] by auto
  qed
  then show ?thesis using c d by auto
qed

theorem clearcoat_threshold_witness:
  "runProcessing True (1 / 5) 1 1024 1024 None (Some exampleMask) = Inr exampleVarnishMaps \<and>
   varnishData (Some exampleMask) 2 2 =
     Some [255, 255, 255, 255,  255, 255, 255, 255,  0, 0, 0, 255,  0, 0, 0, 255] \<and>
   map_option (\<lambda>c. (url_data c ! 4, url_data c ! 8, url_data c ! 11)) (clearcoatMap exampleVarnishMaps)
     = Some (255, 0, 255)"
proof -
  let ?vd = "[255, 255, 255, 255,  255, 255, 255, 255,  0, 0, 0, 255,  0, 0, 0, 255] :: byte list"
  have vd: "varnishData (Some exampleMask) (workWidth None (Some exampleMask) 1024)
      (workHeight None (Some exampleMask) 1024) = Some ?vd"
    by (simp add: example_sizes example_varnish_only)
  from clearcoat_threshold [OF example_run_varnish vd]
  obtain c where c: "clearcoatMap exampleVarnishMaps = Some c"
    "\<And>k. k < 16 \<Longrightarrow> url_data c ! k = (if k mod 4 = 3 then 255 else if 100 < ?vd ! (k - k mod 4) then 255 else 0)"
    by auto
  have "url_data c ! 4 = 255" "url_data c ! 8 = 0" "url_data c ! 11 = 255"
    using c(2) [of 4] c(2) [of 8] c(2) [of 11] by simp_all
  then show ?thesis using example_run_varnish example_varnish_only c(1) by simp
qed

text \<open>
  Claim C7: for every input and all roughness scalars, at every pixel each colour
  channel of the metalness map plus the inverted white-ink sample of the pixel is
  exactly 255.
\<close>

theorem metalness_complement:
  assumes run: "runProcessing ctx mr pr tw th whiteImg varnishImg = Inr maps"
    and k: "k < length (whiteInkData whiteImg (workWidth whiteImg varnishImg tw) (workHeight whiteImg varnishImg th))"
    and ch: "k mod 4 \<noteq> 3"
  shows "unat (url_data (metalnessMap maps) ! k)
       + unat (whiteInkData whiteImg (workWidth whiteImg varnishImg tw) (workHeight whiteImg varnishImg th) ! (k - k mod 4))
       = 255"
proof -
  let ?wd = "whiteInkData whiteImg (workWidth whiteImg varnishImg tw) (workHeight whiteImg varnishImg th)"
  have "url_data (metalnessMap maps) ! k = 255 - ?wd ! (k - k mod 4)"
    using runProcessing_Inr(1) [OF run] outputBuffers_metalness(2) [OF k] ch by simp
  then show ?thesis by (simp only: byte_complement)
qed

theorem metalness_complement_witness:
  "runProcessing True (1 / 5) 1 1024 1024 (Some exampleMask) None = Inr exampleMaps \<and>
   9 < length (whiteInkData (Some exampleMask) 2 2) \<and>
   url_data (metalnessMap exampleMaps) ! 9 = 255 \<and>
   whiteInkData (Some exampleMask) 2 2 ! 8 = 0 \<and>
   unat (url_data (metalnessMap exampleMaps) ! 9) + unat (whiteInkData (Some exampleMask) 2 2 ! 8) = 255"
proof -
  have k: "9 < length (whiteInkData (Some exampleMask) (workWidth (Some exampleMask) None 1024)
      (workHeight (Some exampleMask) None 1024))"
    by (simp add: example_sizes)
  have ch: "(9::nat) mod 4 \<noteq> 3" by simp
  have v: "url_data (metalnessMap exampleMaps) ! 9 = 255" "whiteInkData (Some exampleMask) 2 2 ! 8 = 0"
    by (simp_all add: exampleMaps_def example_ink)
  from metalness_complement [OF example_run k ch]
  have "unat (url_data (metalnessMap exampleMaps) ! 9) + unat (whiteInkData (Some exampleMask) 2 2 ! 8) = 255"
    by (simp add: example_sizes)
  then show ?thesis using example_run k v by (simp add: example_sizes)
qed

text \<open>
  Claim C8: with both roughness scalars in \<open>[0, 1]\<close> and
  \<open>paperRoughness \<ge> metalRoughness\<close>, the roughness sample of a pixel without varnish
  is a function of its inverted white-ink sample \<open>r\<close>, and that function is monotonic
  non-decreasing in \<open>r\<close>.
\<close>

theorem roughness_monotone:
  assumes range: "0 \<le> mr" "mr \<le> 1" "0 \<le> pr" "pr \<le> 1" and ord: "mr \<le> pr"
    and run: "runProcessing ctx mr pr tw th whiteImg varnishImg = Inr maps"
  shows "(\<forall>k < length (whiteInkData whiteImg (workWidth whiteImg varnishImg tw) (workHeight whiteImg varnishImg th)).
           k mod 4 \<noteq> 3 \<longrightarrow>
           \<not> varnished (varnishData varnishImg (workWidth whiteImg varnishImg tw) (workHeight whiteImg varnishImg th)) (k - k mod 4) \<longrightarrow>
           url_data (roughnessMap maps) ! k =
             ToUint8Clamp (roughVal (metalRoughVal mr) (paperRoughVal pr)
               (whiteInkData whiteImg (workWidth whiteImg varnishImg tw) (workHeight whiteImg varnishImg th) ! (k - k mod 4))))
       \<and> (\<forall>r1 r2. r1 \<le> r2 \<longrightarrow>
             ToUint8Clamp (roughVal (metalRoughVal mr) (paperRoughVal pr) r1)
               \<le> ToUint8Clamp (roughVal (metalRoughVal mr) (paperRoughVal pr) r2))"
proof (intro conjI allI impI)
  fix k
  assume "k < length (whiteInkData whiteImg (workWidth whiteImg varnishImg tw) (workHeight whiteImg varnishImg th))"
    and "k mod 4 \<noteq> 3"
    and "\<not> varnished (varnishData varnishImg (workWidth whiteImg varnishImg tw) (workHeight whiteImg varnishImg th)) (k - k mod 4)"
  then show "url_data (roughnessMap maps) ! k =
             ToUint8Clamp (roughVal (metalRoughVal mr) (paperRoughVal pr)
               (whiteInkData whiteImg (workWidth whiteImg varnishImg tw) (workHeight whiteImg varnishImg th) ! (k - k mod 4)))"
    using runProcessing_Inr(2) [OF run] outputBuffers_roughness(2) [of k whiteImg varnishImg tw th mr pr]
    by simp
next
  fix r1 r2 :: byte
  assume "r1 \<le> r2"
  with scale_mono [OF range(1) ord range(4)]
  have "roughVal (metalRoughVal mr) (paperRoughVal pr) r1 \<le> roughVal (metalRoughVal mr) (paperRoughVal pr) r2"
    by (rule roughVal_mono)
  then show "ToUint8Clamp (roughVal (metalRoughVal mr) (paperRoughVal pr) r1)
               \<le> ToUint8Clamp (roughVal (metalRoughVal mr) (paperRoughVal pr) r2)"
    by (rule ToUint8Clamp_mono)
qed

theorem roughness_monotone_witness:
  "(0::real) \<le> 1 / 5 \<and> (1::real) / 5 \<le> 1 \<and> (0::real) \<le> 1 \<and> (1::real) \<le> 1 \<and>
   runProcessing True (1 / 5) 1 1024 1024 (Some exampleMask) None = Inr exampleMaps \<and>
   ToUint8Clamp (roughVal (metalRoughVal (1 / 5)) (paperRoughVal 1) 0) = 51 \<and>
   ToUint8Clamp (roughVal (metalRoughVal (1 / 5)) (paperRoughVal 1) 255) = 255 \<and>
   ToUint8Clamp (roughVal (metalRoughVal (1 / 5)) (paperRoughVal 1) 0)
     \<le> ToUint8Clamp (roughVal (metalRoughVal (1 / 5)) (paperRoughVal 1) 255)"
proof -
  have h: "(0::real) \<le> 1 / 5" "(1::real) / 5 \<le> 1" "(0::real) \<le> 1" "(1::real) \<le> 1" "(1::real) / 5 \<le> 1"
    by simp_all
  have v: "ToUint8Clamp (roughVal (metalRoughVal (1 / 5)) (paperRoughVal 1) 0) = 51"
    "ToUint8Clamp (roughVal (metalRoughVal (1 / 5)) (paperRoughVal 1) 255) = 255"
    by code_simp+
  from roughness_monotone [OF h example_run]
  have "ToUint8Clamp (roughVal (metalRoughVal (1 / 5)) (paperRoughVal 1) 0)
     \<le> ToUint8Clamp (roughVal (metalRoughVal (1 / 5)) (paperRoughVal 1) 255)"
    by simp
  then show ?thesis using h v example_run by simp
qed

text \<open>
  Claim C9: with both masks supplied, whatever their resolutions, every element access
  the synthesis makes (in the two inversion loops and in the per-pixel loop, on the two
  input buffers and the three output buffers) is in range, and every array accessed has
  the length of the white mask's raster, 4 bytes for each of its width times height
  pixels. The per-pixel loop reads the white-ink buffer and the varnish buffer at the
  first offset of every pixel, so the varnish buffer it reads has that length too: the
  varnish mask has been rasterized at the white mask's size.
\<close>

theorem no_out_of_bounds:
  fixes wImg vImg :: image and tw th :: nat and mr pr :: real
  defines "n \<equiv> width wImg * height wImg * 4"
    and "trace \<equiv> accessed (outputBuffers mr pr tw th (Some wImg) (Some vImg))"
  shows "(\<forall>(name, i, len) \<in> set trace. i < len \<and> len = n) \<and>
         (\<forall>p < width wImg * height wImg.
            (WhiteInk, 4 * p, n) \<in> set trace \<and> (Varnish, 4 * p, n) \<in> set trace)"
proof -
  let ?w = "width wImg" and ?h = "height wImg"
  let ?wd = "whiteInkData (Some wImg) ?w ?h"
  let ?v = "fst (invert Varnish (getImageData vImg ?w ?h))"
  let ?init = "\<lparr> metalnessData = replicate (length ?wd) 0,
                  roughnessData = replicate (length ?wd) 0,
                  clearcoatData = Some (replicate (length ?wd) 0),
                  accessed = snd (whiteInkStep (Some wImg) ?w ?h) @ snd (varnishStep (Some vImg) ?w ?h) \<rparr>"
  let ?run = "for4 0 (length ?wd) (pixelStep ?wd (Some ?v) (metalRoughVal mr) (paperRoughVal pr)) ?init"
  have wh: "workWidth (Some wImg) (Some vImg) tw = ?w" "workHeight (Some wImg) (Some vImg) th = ?h"
    by (simp_all add: workWidth_def workHeight_def)
  have len: "length ?wd = n" and lv: "length ?v = n" by (simp_all add: n_def)
  have tr: "trace = accessed ?run"
    unfolding trace_def outputBuffers_def Let_def wh varnishData_Some by simp
  have inv_w: "\<forall>(name, i, len) \<in> set (snd (whiteInkStep (Some wImg) ?w ?h)). i < len \<and> len = n"
    using invert_in_range [of "getImageData wImg ?w ?h" WhiteInk]
    by (simp add: whiteInkStep_def n_def)
  have inv_v: "\<forall>(name, i, len) \<in> set (snd (varnishStep (Some vImg) ?w ?h)). i < len \<and> len = n"
    unfolding snd_varnishStep
    using invert_in_range [of "getImageData vImg ?w ?h" Varnish]
    by (simp add: n_def)
  have "\<forall>(name, i, len) \<in> set (accessed ?run). i < len \<and> len = length ?wd"
  proof (rule pixel_loop_in_range)
    show "4 dvd length ?wd" by simp
    show "length v = length ?wd" if "Some ?v = Some v" for v using that by auto
    show "length (metalnessData ?init) = length ?wd" by simp
    show "length (roughnessData ?init) = length ?wd" by simp
    show "length c = length ?wd" if "clearcoatData ?init = Some c" for c using that by auto
    show "\<forall>(name, i, len) \<in> set (accessed ?init). i < len \<and> len = length ?wd"
      using inv_w inv_v unfolding len by auto
  qed
  then have safe: "\<forall>(name, i, len) \<in> set trace. i < len \<and> len = n"
    unfolding tr len .
  have reads: "\<forall>j < length ?wd. 4 dvd j \<longrightarrow>
      (WhiteInk, j, length ?wd) \<in> set (accessed ?run) \<and> (Varnish, j, length ?v) \<in> set (accessed ?run)"
    by (rule pixel_loop_reads) simp
  have "(WhiteInk, 4 * p, n) \<in> set trace \<and> (Varnish, 4 * p, n) \<in> set trace"
    if "p < width wImg * height wImg" for p
  proof -
    have "4 * p < length ?wd" using that by simp
    with reads have "(WhiteInk, 4 * p, length ?wd) \<in> set (accessed ?run) \<and>
        (Varnish, 4 * p, length ?v) \<in> set (accessed ?run)"
      by simp
    then show ?thesis unfolding tr len lv .
  qed
  with safe show ?thesis by blast
qed

theorem no_out_of_bounds_witness:
  "width exampleMask = 2 \<and> height exampleMask = 2 \<and>
   width exampleDot = 1 \<and> height exampleDot = 1 \<and>
   (Varnish, 12, 16) \<in> set (accessed (outputBuffers (1 / 5) 1 1024 1024 (Some exampleMask) (Some exampleDot))) \<and>
   (Varnish, 16, 16) \<notin> set (accessed (outputBuffers (1 / 5) 1 1024 1024 (Some exampleMask) (Some exampleDot))) \<and>
   (Varnish, 0, 4) \<notin> set (accessed (outputBuffers (1 / 5) 1 1024 1024 (Some exampleMask) (Some exampleDot)))"
proof -
  have d: "width exampleMask = 2" "height exampleMask = 2" "width exampleDot = 1" "height exampleDot = 1"
    by (simp_all add: exampleMask_def exampleDot_def)
  note t = no_out_of_bounds [of mr pr tw th exampleMask exampleDot for mr pr tw th, unfolded d]
  from t [of "1 / 5" 1 1024 1024]
  have safe: "\<forall>(name, i, len) \<in> set (accessed (outputBuffers (1 / 5) 1 1024 1024 (Some exampleMask) (Some exampleDot))).
      i < len \<and> len = 16"
    and reads: "\<forall>p < 4. (Varnish, 4 * p, 16) \<in> set (accessed (outputBuffers (1 / 5) 1 1024 1024 (Some exampleMask) (Some exampleDot)))"
    by simp_all
  from reads [rule_format, of 3]
  have "(Varnish, 12, 16) \<in> set (accessed (outputBuffers (1 / 5) 1 1024 1024 (Some exampleMask) (Some exampleDot)))"
    by simp
  moreover from safe have "(Varnish, 16, 16) \<notin> set (accessed (outputBuffers (1 / 5) 1 1024 1024 (Some exampleMask) (Some exampleDot)))"
    "(Varnish, 0, 4) \<notin> set (accessed (outputBuffers (1 / 5) 1 1024 1024 (Some exampleMask) (Some exampleDot)))"
    by auto
  ultimately show ?thesis using d by simp
qed

text \<open>
  Claim C10: when a white mask is supplied, the outcome of the call, restricted to the
  metalness map, does not depend on the varnish mask, the roughness scalars or the
  default size: two calls with the same white mask reject alike or resolve with the
  same metalness map.
\<close>

theorem metalness_depends_on_white_only:
  assumes "supplied imgSrc \<noteq> None"
  shows "map_sum id metalnessMap (processTextureMaps env imgSrc v1 mr1 pr1 tw1 th1)
       = map_sum id metalnessMap (processTextureMaps env imgSrc v2 mr2 pr2 tw2 th2)"
proof -
  from assms obtain src where src: "supplied imgSrc = Some src" by auto
  show ?thesis
  proof (cases "load env src")
    case None
    then show ?thesis by (simp add: white_failed [OF src])
  next
    case (Some img)
    from white_loaded [OF src Some] obtain a where
      a: "processTextureMaps env imgSrc v1 mr1 pr1 tw1 th1 = runProcessing (context2d env) mr1 pr1 tw1 th1 (Some img) a"
      by blast
    from white_loaded [OF src Some] obtain b where
      b: "processTextureMaps env imgSrc v2 mr2 pr2 tw2 th2 = runProcessing (context2d env) mr2 pr2 tw2 th2 (Some img) b"
      by blast
    show ?thesis unfolding a b by (rule runProcessing_metalness_only_white)
  qed
qed

theorem metalness_depends_on_white_only_witness:
  "supplied (Some ''white.png'') \<noteq> None \<and>
   map_sum id metalnessMap (processTextureMaps exampleBrowser (Some ''white.png'') (Some ''varnish.png'') (7 / 10) (3 / 10) 512 512)
     = Inr (metalnessMap exampleMaps)"
proof -
  have h: "supplied (Some ''white.png'') \<noteq> None" by (simp add: supplied_def)
  have "map_sum id metalnessMap (processTextureMaps exampleBrowser (Some ''white.png'') None (1 / 5) 1 1024 1024)
     = Inr (metalnessMap exampleMaps)"
    by (simp add: example_process)
  with metalness_depends_on_white_only [OF h, of exampleBrowser "Some ''varnish.png''" "7 / 10" "3 / 10" 512 512 None "1 / 5" 1 1024 1024]
  show ?thesis using h by simp
qed

end
